theory Spec2Isabelle
  imports Main "HOL-Library.Word" "HOL-Library.Sublist"
begin

section \<open>Values exchanged with the browser platform\<close>

text \<open>
  The program is a browser front end (\<^verbatim>\<open>camera.ts\<close>, \<^verbatim>\<open>webauthn.ts\<close>, \<^verbatim>\<open>main.ts\<close>).
  A \<^verbatim>\<open>Uint8Array\<close> is a list of 8-bit words; a JavaScript "binary string" (code units
  below 256, as \<^verbatim>\<open>String.fromCharCode\<close> of a byte produces) and the ASCII output of
  \<^verbatim>\<open>btoa\<close> are HOL strings, whose characters are exactly the code units 0..255.
  A \<^verbatim>\<open>MediaStream\<close> object is identified by the number the platform handed it out under.
\<close>

type_synonym byte = "8 word"
type_synonym stream = nat

text \<open>
  The \<^verbatim>\<open>type\<close> discriminant of \<^verbatim>\<open>CameraError\<close> and \<^verbatim>\<open>WebAuthnError\<close>: the eight
  distinct string literals of the two unions (\<^verbatim>\<open>'not-supported'\<close> and \<^verbatim>\<open>'unknown'\<close>
  occur in both).
\<close>

datatype error_type =
    PermissionDenied | NotFound | InUse | NotSupported
  | NotAllowed | Timeout | InvalidState | Unknown

text \<open>
  What a \<^verbatim>\<open>catch (err)\<close> of the program can receive: an exception object of the platform
  (a \<^verbatim>\<open>DOMException\<close> with \<^verbatim>\<open>name\<close> and \<^verbatim>\<open>message\<close>, no \<^verbatim>\<open>type\<close> property), or an
  object literal \<^verbatim>\<open>{type, message, originalError?}\<close> built by the program itself (no
  \<^verbatim>\<open>name\<close> property).
\<close>

datatype thrown =
    DOMException string string
  | CapabilityError error_type string "thrown option"

text \<open>Property reads; \<^verbatim>\<open>undefined\<close> is \<open>None\<close>.\<close>

fun prop_type :: "thrown \<Rightarrow> error_type option" where
  "prop_type (DOMException n m) = None"
| "prop_type (CapabilityError t m orig) = Some t"

fun prop_name :: "thrown \<Rightarrow> string option" where
  "prop_name (DOMException n m) = Some n"
| "prop_name (CapabilityError t m orig) = None"

fun prop_message :: "thrown \<Rightarrow> string" where
  "prop_message (DOMException n m) = m"
| "prop_message (CapabilityError t m orig) = m"

fun prop_originalError :: "thrown \<Rightarrow> thrown option" where
  "prop_originalError (DOMException n m) = None"
| "prop_originalError (CapabilityError t m orig) = orig"

text \<open>\<^verbatim>\<open>a || b\<close> on strings: the empty string is falsy.\<close>

definition or_else :: "string \<Rightarrow> string \<Rightarrow> string" where
  "or_else a b = (if a = [] then b else a)"

record PublicKeyCredential =
  rawId :: "byte list"

record AuthenticationResult =
  success :: bool
  credential :: "PublicKeyCredential option"
  isNewRegistration :: "bool option"

text \<open>
  The asynchronous platform operations the program awaits. Each is a suspension point:
  the calling flow stops there and is resumed when the platform settles the operation.
  \<^item> \<^verbatim>\<open>navigator.mediaDevices.getUserMedia\<close>;
  \<^item> \<^verbatim>\<open>navigator.credentials.create\<close>, with the challenge, \<^verbatim>\<open>rp.id\<close> and \<^verbatim>\<open>user.id\<close>;
  \<^item> \<^verbatim>\<open>navigator.credentials.get\<close>, with the challenge and the identifiers of
    \<^verbatim>\<open>allowCredentials\<close>;
  \<^item> \<^verbatim>\<open>setTimeout\<close>, with the delay.
\<close>

datatype request =
    GetUserMedia
  | CredentialsCreate "byte list" string "byte list"
  | CredentialsGet "byte list" "byte list list"
  | SetTimeout nat

fun credential_request :: "request \<Rightarrow> bool" where
  "credential_request (CredentialsCreate c r u) = True"
| "credential_request (CredentialsGet c ids) = True"
| "credential_request GetUserMedia = False"
| "credential_request (SetTimeout d) = False"

text \<open>
  Where a suspended flow continues: the \<^verbatim>\<open>await\<close> of \<^verbatim>\<open>startCamera\<close>, the three
  \<^verbatim>\<open>await\<close>s of \<^verbatim>\<open>handleWebAuthnAuthentication\<close> (its two camera requests have the same
  continuation and share a frame), and the \<^verbatim>\<open>setTimeout\<close> callback.
\<close>

datatype frame =
    StartCamera_camera
  | WebAuthn_authenticate
  | WebAuthn_register
  | WebAuthn_camera
  | AutoStop

fun webauthn_frame :: "frame \<Rightarrow> bool" where
  "webauthn_frame WebAuthn_authenticate = True"
| "webauthn_frame WebAuthn_register = True"
| "webauthn_frame WebAuthn_camera = True"
| "webauthn_frame StartCamera_camera = False"
| "webauthn_frame AutoStop = False"

datatype toggle_label = Enable_Camera | Requesting_access | Stop_Camera
datatype webauthn_label = Authenticate_with_FaceID | Authenticating | Registering | Authenticated
datatype status = Authentication_successful | Credential_registered_info
datatype help_list = Camera_help | WebAuthn_help

section \<open>The state\<close>

text \<open>
  One record holds what the three modules read and write.
  \<^item> The platform: whether \<^verbatim>\<open>window.PublicKeyCredential\<close>, \<^verbatim>\<open>navigator.credentials\<close>,
    \<^verbatim>\<open>navigator.mediaDevices\<close> and its \<^verbatim>\<open>getUserMedia\<close> exist; the host name; the
    \<^verbatim>\<open>localStorage\<close>; the bytes \<^verbatim>\<open>crypto.getRandomValues\<close> will deliver (\<open>entropy\<close>, of
    which \<open>drawn\<close> are used up); the number of streams handed out so far (\<open>opened\<close>) and
    the streams whose tracks have not been stopped (\<open>live\<close>).
  \<^item> The module variables: \<^verbatim>\<open>currentStream\<close> of \<^verbatim>\<open>camera.ts\<close>; \<^verbatim>\<open>isCameraActive\<close>,
    \<^verbatim>\<open>isAuthenticating\<close> and \<^verbatim>\<open>isAuthenticated\<close> of \<^verbatim>\<open>main.ts\<close>.
  \<^item> The page: \<^verbatim>\<open>video.srcObject\<close>, the \<^verbatim>\<open>active\<close> and \<^verbatim>\<open>authenticated\<close> classes, the
    buttons' labels and \<^verbatim>\<open>disabled\<close> flags, and the three message boxes (\<open>None\<close> when
    hidden). Labels, status texts and help lists are named, not spelled out.
  \<^item> The event loop: \<open>pending\<close> holds the operations the platform has not settled yet,
    each with the frame it resumes; \<open>issued\<close> is the log of every operation ever issued,
    in order.
  Writing to \<^verbatim>\<open>localStorage\<close> is taken to succeed.
\<close>

record state =
  PublicKeyCredential_present :: bool
  credentials_present :: bool
  mediaDevices_present :: bool
  getUserMedia_present :: bool
  hostname :: string
  localStorage :: "string \<rightharpoonup> string"
  entropy :: "nat \<Rightarrow> byte"
  drawn :: nat
  opened :: nat
  live :: "stream list"
  currentStream :: "stream option"
  isCameraActive :: bool
  isAuthenticating :: bool
  isAuthenticated :: bool
  video_srcObject :: "stream option"
  video_active :: bool
  toggleButton_disabled :: bool
  toggleButton_text :: toggle_label
  toggleButton_active :: bool
  webauthnButton_disabled :: bool
  webauthnButton_text :: webauthn_label
  webauthnButton_authenticated :: bool
  statusMessage :: "status option"
  errorMessage :: "string option"
  helpInstructions :: "help_list option"
  pending :: "(request \<times> frame) list"
  issued :: "(request \<times> frame) list"

definition suspend :: "request \<Rightarrow> frame \<Rightarrow> state \<Rightarrow> state" where
  "suspend req fr s = s\<lparr>pending := pending s @ [(req, fr)], issued := issued s @ [(req, fr)]\<rparr>"

section \<open>Base64 of the platform\<close>

text \<open>
  \<^verbatim>\<open>btoa\<close> and \<^verbatim>\<open>atob\<close> are functions of the browser, not of the repository. They are
  modelled after the HTML standard: \<^verbatim>\<open>btoa\<close> is the base64 encoding of RFC 4648 with
  padding; \<^verbatim>\<open>atob\<close> is the forgiving decoding (ASCII whitespace removed, one or two
  padding characters removed when the length is a multiple of four, failure on a length
  of 1 modulo 4 or on a character outside the alphabet, leftover bits discarded).
  \<open>None\<close> is the \<^verbatim>\<open>InvalidCharacterError\<close> that \<^verbatim>\<open>atob\<close> throws. (\<^verbatim>\<open>btoa\<close> throws on a
  code unit above 255 only; the binary strings here have none.)
\<close>

definition base64_alphabet :: string where
  "base64_alphabet = ''ABCDEFGHIJKLMNOPQRSTUVWXYZabcdefghijklmnopqrstuvwxyz0123456789+/''"

definition sextet_char :: "nat \<Rightarrow> char" where
  "sextet_char i = base64_alphabet ! i"

fun index_of :: "'a \<Rightarrow> 'a list \<Rightarrow> nat option" where
  "index_of x [] = None"
| "index_of x (y # ys) = (if x = y then Some 0 else map_option Suc (index_of x ys))"

definition char_sextet :: "char \<Rightarrow> nat option" where
  "char_sextet c = index_of c base64_alphabet"

fun btoa_groups :: "nat list \<Rightarrow> string" where
  "btoa_groups (a # b # c # rest) =
     sextet_char (a div 4) # sextet_char ((a mod 4) * 16 + b div 16) #
     sextet_char ((b mod 16) * 4 + c div 64) # sextet_char (c mod 64) # btoa_groups rest"
| "btoa_groups [a, b] =
     [sextet_char (a div 4), sextet_char ((a mod 4) * 16 + b div 16),
      sextet_char ((b mod 16) * 4), CHR ''='']"
| "btoa_groups [a] =
     [sextet_char (a div 4), sextet_char ((a mod 4) * 16), CHR ''='', CHR ''='']"
| "btoa_groups [] = []"

definition btoa :: "string \<Rightarrow> string" where
  "btoa s = btoa_groups (map of_char s)"

definition ascii_whitespace :: "char \<Rightarrow> bool" where
  "ascii_whitespace c = (c \<in> set [CHR 0x09, CHR 0x0A, CHR 0x0C, CHR 0x0D, CHR 0x20])"

definition strip_padding :: "string \<Rightarrow> string" where
  "strip_padding d =
     (if length d mod 4 = 0 then
        (if suffix ''=='' d then take (length d - 2) d
         else if suffix ''='' d then take (length d - 1) d
         else d)
      else d)"

fun atob_groups :: "nat list \<Rightarrow> nat list" where
  "atob_groups (p # q # r # s # rest) =
     (p * 4 + q div 16) # ((q mod 16) * 16 + r div 4) # ((r mod 4) * 64 + s) # atob_groups rest"
| "atob_groups [p, q, r] = [p * 4 + q div 16, (q mod 16) * 16 + r div 4]"
| "atob_groups [p, q] = [p * 4 + q div 16]"
| "atob_groups _ = []"

definition atob :: "string \<Rightarrow> string option" where
  "atob data =
     (let d = strip_padding (filter (\<lambda>c. \<not> ascii_whitespace c) data) in
      if length d mod 4 = 1 then None
      else map_option (map char_of \<circ> atob_groups) (those (map char_sextet d)))"

text \<open>The sextets of an encoding and its padding, apart: used to reason about \<open>btoa\<close>.\<close>

fun sextets :: "nat list \<Rightarrow> nat list" where
  "sextets (a # b # c # rest) =
     (a div 4) # ((a mod 4) * 16 + b div 16) # ((b mod 16) * 4 + c div 64) # (c mod 64) #
     sextets rest"
| "sextets [a, b] = [a div 4, (a mod 4) * 16 + b div 16, (b mod 16) * 4]"
| "sextets [a] = [a div 4, (a mod 4) * 16]"
| "sextets [] = []"

definition padding :: "nat list \<Rightarrow> string" where
  "padding xs = replicate ((3 - length xs mod 3) mod 3) (CHR ''='')"

section \<open>\<^verbatim>\<open>camera.ts\<close>: the camera gateway\<close>

text \<open>The \<^verbatim>\<open>catch\<close> block of \<^verbatim>\<open>requestCameraAccess\<close>: a \<^verbatim>\<open>switch\<close> on \<^verbatim>\<open>error.name\<close>.\<close>

definition requestCameraAccess_catch :: "thrown \<Rightarrow> thrown" where
  "requestCameraAccess_catch error =
     (if prop_name error = Some ''NotAllowedError''
         \<or> prop_name error = Some ''PermissionDeniedError'' then
        CapabilityError PermissionDenied
          ''Camera access was denied. Please allow camera access to continue.'' (Some error)
      else if prop_name error = Some ''NotFoundError''
         \<or> prop_name error = Some ''DevicesNotFoundError'' then
        CapabilityError NotFound
          ''No camera device found. Please connect a camera and try again.'' (Some error)
      else if prop_name error = Some ''NotReadableError''
         \<or> prop_name error = Some ''TrackStartError'' then
        CapabilityError InUse
          ''Camera is currently in use by another application. Please close other apps using the camera and try again.''
          (Some error)
      else
        CapabilityError Unknown
          (''Unable to access camera: '' @ or_else (prop_message error) ''Unknown error'')
          (Some error))"

text \<open>
  \<^verbatim>\<open>requestCameraAccess\<close> up to its \<^verbatim>\<open>await\<close>: it either throws before any platform call
  (and the \<^verbatim>\<open>catch\<close> block, which encloses the whole body, handles what was thrown), or
  issues \<^verbatim>\<open>getUserMedia\<close> and suspends. It writes no variable.
\<close>

definition requestCameraAccess :: "state \<Rightarrow> thrown + request" where
  "requestCameraAccess s =
     (if \<not> mediaDevices_present s \<or> \<not> getUserMedia_present s then
        Inl (requestCameraAccess_catch (CapabilityError NotSupported
          ''Camera access is not supported in this browser. Please use a modern browser like Chrome, Firefox, Safari, or Edge.''
          None))
      else Inr GetUserMedia)"

text \<open>
  \<^verbatim>\<open>requestCameraAccess\<close> from the point where \<^verbatim>\<open>getUserMedia\<close> has settled: with a
  stream (\<^verbatim>\<open>currentStream = stream; return stream\<close>) or with an exception.
\<close>

definition requestCameraAccess_resume :: "thrown + stream \<Rightarrow> state \<Rightarrow> (thrown + stream) \<times> state" where
  "requestCameraAccess_resume settled s =
     (case settled of
        Inr stream \<Rightarrow> (Inr stream, s\<lparr>currentStream := Some stream\<rparr>)
      | Inl err \<Rightarrow> (Inl (requestCameraAccess_catch err), s))"

text \<open>\<^verbatim>\<open>stopCamera\<close>: stopping the tracks of a stream takes it out of the live ones.\<close>

definition stopCamera :: "state \<Rightarrow> state" where
  "stopCamera s =
     (case currentStream s of
        Some stream \<Rightarrow> s\<lparr>live := removeAll stream (live s), currentStream := None\<rparr>
      | None \<Rightarrow> s)"

section \<open>\<^verbatim>\<open>webauthn.ts\<close>: the biometric gateway and the credential store\<close>

definition CREDENTIAL_STORAGE_KEY :: string where
  "CREDENTIAL_STORAGE_KEY = ''webauthn_credential_id''"

definition checkWebAuthnSupport :: "state \<Rightarrow> bool" where
  "checkWebAuthnSupport s = (PublicKeyCredential_present s \<and> credentials_present s)"

text \<open>\<^verbatim>\<open>crypto.getRandomValues\<close> on a fresh array of \<open>n\<close> bytes.\<close>

definition getRandomValues :: "nat \<Rightarrow> state \<Rightarrow> byte list \<times> state" where
  "getRandomValues n s = (map (entropy s) [drawn s ..< drawn s + n], s\<lparr>drawn := drawn s + n\<rparr>)"

definition generateChallenge :: "state \<Rightarrow> byte list \<times> state" where
  "generateChallenge s = getRandomValues 32 s"

definition generateUserId :: "state \<Rightarrow> byte list \<times> state" where
  "generateUserId s = getRandomValues 16 s"

definition base64ToUint8Array :: "string \<Rightarrow> byte list option" where
  "base64ToUint8Array base64 =
     map_option (map (\<lambda>c. of_nat (of_char c))) (atob base64)"

definition uint8ArrayToBase64 :: "byte list \<Rightarrow> string" where
  "uint8ArrayToBase64 buffer = btoa (map (\<lambda>b. char_of (unat b)) buffer)"

text \<open>
  \<^verbatim>\<open>getStoredCredentialId\<close>: \<^verbatim>\<open>!stored\<close> holds for \<^verbatim>\<open>null\<close> and for the empty string; an
  exception of \<^verbatim>\<open>atob\<close> is caught and gives \<^verbatim>\<open>null\<close>.
\<close>

definition getStoredCredentialId :: "state \<Rightarrow> byte list option" where
  "getStoredCredentialId s =
     (case localStorage s CREDENTIAL_STORAGE_KEY of
        None \<Rightarrow> None
      | Some stored \<Rightarrow> if stored = [] then None else base64ToUint8Array stored)"

definition storeCredentialId :: "byte list \<Rightarrow> state \<Rightarrow> state" where
  "storeCredentialId credentialId s =
     s\<lparr>localStorage := (localStorage s)(CREDENTIAL_STORAGE_KEY \<mapsto> uint8ArrayToBase64 credentialId)\<rparr>"

definition clearStoredCredential :: "state \<Rightarrow> state" where
  "clearStoredCredential s = s\<lparr>localStorage := (localStorage s)(CREDENTIAL_STORAGE_KEY := None)\<rparr>"

text \<open>The \<^verbatim>\<open>catch\<close> block of \<^verbatim>\<open>registerCredential\<close>.\<close>

definition registerCredential_catch :: "thrown \<Rightarrow> thrown" where
  "registerCredential_catch err =
     (if prop_type err \<noteq> None then err
      else if prop_name err = Some ''NotAllowedError'' then
        CapabilityError NotAllowed
          ''Biometric authentication was cancelled or denied. Please ensure you have Face ID, Touch ID, or Windows Hello set up on your device.''
          (Some err)
      else if prop_name err = Some ''NotSupportedError'' then
        CapabilityError NotSupported
          ''This device does not support biometric authentication. Please ensure Face ID, Touch ID, or Windows Hello is enabled.''
          (Some err)
      else if prop_name err = Some ''InvalidStateError'' then
        CapabilityError InvalidState
          ''A credential is already registered for this device.'' (Some err)
      else if prop_name err = Some ''TimeoutError'' \<or> prop_name err = Some ''AbortError'' then
        CapabilityError Timeout
          ''Authentication timed out. Please try again and complete the biometric verification within 60 seconds.''
          (Some err)
      else
        CapabilityError Unknown
          (''Unable to register biometric authentication: '' @
             or_else (prop_message err) ''Unknown error'')
          (Some err))"

text \<open>\<^verbatim>\<open>registerCredential\<close> up to its \<^verbatim>\<open>await\<close>.\<close>

definition registerCredential :: "state \<Rightarrow> (thrown + request) \<times> state" where
  "registerCredential s =
     (if \<not> checkWebAuthnSupport s then
        (Inl (registerCredential_catch (CapabilityError NotSupported
           ''WebAuthn is not supported in this browser. Please use a modern browser like Chrome, Firefox, Safari, or Edge.''
           None)), s)
      else
        (case generateChallenge s of (challenge, s1) \<Rightarrow>
         case generateUserId s1 of (userId, s2) \<Rightarrow>
           (Inr (CredentialsCreate challenge
              (if hostname s2 = ''localhost'' then ''localhost'' else hostname s2) userId), s2)))"

text \<open>
  \<^verbatim>\<open>registerCredential\<close> from the point where \<^verbatim>\<open>navigator.credentials.create\<close> has
  settled: with a credential or \<^verbatim>\<open>null\<close>, or with an exception.
\<close>

definition registerCredential_resume ::
    "thrown + PublicKeyCredential option \<Rightarrow> state \<Rightarrow> (thrown + AuthenticationResult) \<times> state" where
  "registerCredential_resume settled s =
     (case settled of
        Inl err \<Rightarrow> (Inl (registerCredential_catch err), s)
      | Inr None \<Rightarrow>
          (Inl (registerCredential_catch (CapabilityError Unknown
             ''Failed to create credential. Please try again.'' None)), s)
      | Inr (Some cred) \<Rightarrow>
          (Inr \<lparr>success = True, credential = Some cred, isNewRegistration = Some True\<rparr>,
           storeCredentialId (rawId cred) s))"

text \<open>The \<^verbatim>\<open>catch\<close> block of \<^verbatim>\<open>authenticateUser\<close>.\<close>

definition authenticateUser_catch :: "thrown \<Rightarrow> thrown" where
  "authenticateUser_catch err =
     (if prop_type err \<noteq> None then err
      else if prop_name err = Some ''NotAllowedError'' then
        CapabilityError NotAllowed
          ''Biometric authentication was cancelled or denied.'' (Some err)
      else if prop_name err = Some ''NotSupportedError'' then
        CapabilityError NotSupported
          ''This device does not support biometric authentication.'' (Some err)
      else if prop_name err = Some ''InvalidStateError'' then
        CapabilityError InvalidState
          ''Invalid credential state. Please try registering again.'' (Some err)
      else if prop_name err = Some ''TimeoutError'' \<or> prop_name err = Some ''AbortError'' then
        CapabilityError Timeout
          ''Authentication timed out. Please try again.'' (Some err)
      else
        CapabilityError Unknown
          (''Unable to authenticate: '' @ or_else (prop_message err) ''Unknown error'')
          (Some err))"

text \<open>\<^verbatim>\<open>authenticateUser\<close> up to its \<^verbatim>\<open>await\<close>.\<close>

definition authenticateUser :: "state \<Rightarrow> (thrown + request) \<times> state" where
  "authenticateUser s =
     (if \<not> checkWebAuthnSupport s then
        (Inl (authenticateUser_catch (CapabilityError NotSupported
           ''WebAuthn is not supported in this browser. Please use a modern browser like Chrome, Firefox, Safari, or Edge.''
           None)), s)
      else
        (case getStoredCredentialId s of
           None \<Rightarrow>
             (Inl (authenticateUser_catch (CapabilityError InvalidState
                ''No credential found. Please register first.'' None)), s)
         | Some storedCredentialId \<Rightarrow>
             (case generateChallenge s of (challenge, s1) \<Rightarrow>
                (Inr (CredentialsGet challenge [storedCredentialId]), s1))))"

text \<open>
  \<^verbatim>\<open>authenticateUser\<close> from the point where \<^verbatim>\<open>navigator.credentials.get\<close> has settled.
\<close>

definition authenticateUser_resume ::
    "thrown + PublicKeyCredential option \<Rightarrow> state \<Rightarrow> (thrown + AuthenticationResult) \<times> state" where
  "authenticateUser_resume settled s =
     (case settled of
        Inl err \<Rightarrow> (Inl (authenticateUser_catch err), s)
      | Inr None \<Rightarrow>
          (Inl (authenticateUser_catch (CapabilityError Unknown
             ''Failed to authenticate. Please try again.'' None)), s)
      | Inr (Some cred) \<Rightarrow>
          (Inr \<lparr>success = True, credential = Some cred, isNewRegistration = Some False\<rparr>, s))"

section \<open>\<^verbatim>\<open>main.ts\<close>: the orchestrator\<close>

definition hideMessages :: "state \<Rightarrow> state" where
  "hideMessages s = s\<lparr>statusMessage := None, errorMessage := None, helpInstructions := None\<rparr>"

definition showStatusMessage :: "status \<Rightarrow> state \<Rightarrow> state" where
  "showStatusMessage message s = s\<lparr>statusMessage := Some message\<rparr>"

definition showError :: "thrown \<Rightarrow> state \<Rightarrow> state" where
  "showError error s =
     (let s1 = s\<lparr>errorMessage := Some (prop_message error)\<rparr> in
      if prop_type error = Some PermissionDenied then
        s1\<lparr>helpInstructions := Some Camera_help\<rparr>
      else if prop_type error = Some NotAllowed \<or> prop_type error = Some NotSupported then
        s1\<lparr>helpInstructions := Some WebAuthn_help\<rparr>
      else s1)"

text \<open>The \<^verbatim>\<open>catch\<close> block of \<^verbatim>\<open>startCamera\<close>.\<close>

definition startCamera_catch :: "thrown \<Rightarrow> state \<Rightarrow> state" where
  "startCamera_catch err s =
     (showError err s)\<lparr>toggleButton_text := Enable_Camera, toggleButton_disabled := False,
        toggleButton_active := False, video_active := False, isCameraActive := False\<rparr>"

text \<open>\<^verbatim>\<open>startCamera\<close> up to its \<^verbatim>\<open>await\<close>, and from the point where the request has settled.\<close>

definition startCamera :: "state \<Rightarrow> state" where
  "startCamera s =
     (let s1 = hideMessages
        (s\<lparr>toggleButton_disabled := True, toggleButton_text := Requesting_access\<rparr>) in
      case requestCameraAccess s1 of
        Inl err \<Rightarrow> startCamera_catch err s1
      | Inr req \<Rightarrow> suspend req StartCamera_camera s1)"

definition startCamera_resume :: "thrown + stream \<Rightarrow> state \<Rightarrow> state" where
  "startCamera_resume settled s =
     (case settled of
        Inl err \<Rightarrow> startCamera_catch err s
      | Inr stream \<Rightarrow>
          s\<lparr>video_srcObject := Some stream, isCameraActive := True,
            toggleButton_text := Stop_Camera, toggleButton_disabled := False,
            toggleButton_active := True, video_active := True\<rparr>)"

definition handleStopCamera :: "state \<Rightarrow> state" where
  "handleStopCamera s =
     hideMessages ((stopCamera s)\<lparr>video_srcObject := None, isCameraActive := False,
        toggleButton_text := Enable_Camera, toggleButton_active := False,
        video_active := False\<rparr>)"

text \<open>The \<^verbatim>\<open>finally\<close> and the \<^verbatim>\<open>catch\<close> block of \<^verbatim>\<open>handleWebAuthnAuthentication\<close>.\<close>

definition handleWebAuthnAuthentication_finally :: "state \<Rightarrow> state" where
  "handleWebAuthnAuthentication_finally s =
     s\<lparr>isAuthenticating := False, webauthnButton_disabled := False\<rparr>"

definition handleWebAuthnAuthentication_catch :: "thrown \<Rightarrow> state \<Rightarrow> state" where
  "handleWebAuthnAuthentication_catch err s =
     (let s1 = (showError err s)\<lparr>webauthnButton_text := Authenticate_with_FaceID,
                  webauthnButton_authenticated := False, isAuthenticated := False\<rparr> in
      if video_srcObject s1 \<noteq> None then
        (stopCamera s1)\<lparr>video_srcObject := None, video_active := False\<rparr>
      else s1)"

text \<open>
  The inner \<^verbatim>\<open>try\<close> of both success branches: the secondary camera request. A failure is
  logged and swallowed; after it the function ends through \<^verbatim>\<open>finally\<close>.
\<close>

definition handleWebAuthnAuthentication_camera :: "state \<Rightarrow> state" where
  "handleWebAuthnAuthentication_camera s =
     (case requestCameraAccess s of
        Inl cameraError \<Rightarrow> handleWebAuthnAuthentication_finally s
      | Inr req \<Rightarrow> suspend req WebAuthn_camera s)"

definition handleWebAuthnAuthentication_resume_camera :: "thrown + stream \<Rightarrow> state \<Rightarrow> state" where
  "handleWebAuthnAuthentication_resume_camera settled s =
     (case settled of
        Inl cameraError \<Rightarrow> handleWebAuthnAuthentication_finally s
      | Inr stream \<Rightarrow>
          handleWebAuthnAuthentication_finally
            (suspend (SetTimeout 3000) AutoStop
               (s\<lparr>video_srcObject := Some stream, video_active := True\<rparr>)))"

text \<open>The callback given to \<^verbatim>\<open>setTimeout\<close>.\<close>

definition autoStop :: "state \<Rightarrow> state" where
  "autoStop s = (stopCamera s)\<lparr>video_srcObject := None, video_active := False\<rparr>"

text \<open>
  \<^verbatim>\<open>handleWebAuthnAuthentication\<close> from the point where \<^verbatim>\<open>authenticateUser()\<close>, and
  \<^verbatim>\<open>registerCredential()\<close>, has settled.
\<close>

definition handleWebAuthnAuthentication_resume_authenticate ::
    "thrown + AuthenticationResult \<Rightarrow> state \<Rightarrow> state" where
  "handleWebAuthnAuthentication_resume_authenticate settled s =
     (case settled of
        Inl err \<Rightarrow>
          handleWebAuthnAuthentication_finally (handleWebAuthnAuthentication_catch err s)
      | Inr result \<Rightarrow>
          if success result then
            handleWebAuthnAuthentication_camera
              (showStatusMessage Authentication_successful
                 (s\<lparr>isAuthenticated := True, webauthnButton_text := Authenticated,
                    webauthnButton_authenticated := True\<rparr>))
          else handleWebAuthnAuthentication_finally s)"

definition handleWebAuthnAuthentication_resume_register ::
    "thrown + AuthenticationResult \<Rightarrow> state \<Rightarrow> state" where
  "handleWebAuthnAuthentication_resume_register settled s =
     (case settled of
        Inl err \<Rightarrow>
          handleWebAuthnAuthentication_finally (handleWebAuthnAuthentication_catch err s)
      | Inr result \<Rightarrow>
          if success result then
            handleWebAuthnAuthentication_camera
              (showStatusMessage Credential_registered_info
                 (s\<lparr>webauthnButton_text := Authenticate_with_FaceID\<rparr>))
          else handleWebAuthnAuthentication_finally s)"

text \<open>\<^verbatim>\<open>handleWebAuthnAuthentication\<close> up to its first \<^verbatim>\<open>await\<close>.\<close>

definition handleWebAuthnAuthentication :: "state \<Rightarrow> state" where
  "handleWebAuthnAuthentication s =
     (if isAuthenticating s then s
      else
        let s1 = hideMessages (s\<lparr>isAuthenticating := True, webauthnButton_disabled := True\<rparr>) in
        if \<not> checkWebAuthnSupport s1 then
          handleWebAuthnAuthentication_finally
            (handleWebAuthnAuthentication_catch (CapabilityError NotSupported
               ''Your browser does not support biometric authentication. Please use a modern browser like Chrome, Safari, Firefox, or Edge.''
               None) s1)
        else if getStoredCredentialId s1 \<noteq> None then
          (case authenticateUser (s1\<lparr>webauthnButton_text := Authenticating\<rparr>) of
             (Inl err, s2) \<Rightarrow>
               handleWebAuthnAuthentication_finally (handleWebAuthnAuthentication_catch err s2)
           | (Inr req, s2) \<Rightarrow> suspend req WebAuthn_authenticate s2)
        else
          (case registerCredential (s1\<lparr>webauthnButton_text := Registering\<rparr>) of
             (Inl err, s2) \<Rightarrow>
               handleWebAuthnAuthentication_finally (handleWebAuthnAuthentication_catch err s2)
           | (Inr req, s2) \<Rightarrow> suspend req WebAuthn_register s2))"

section \<open>The event loop\<close>

text \<open>
  How the platform settles an operation: a credential call with a credential or
  \<^verbatim>\<open>null\<close>, a camera request with a new stream, either with an exception (its name and
  message), a timer by firing.
\<close>

datatype settlement =
    Resolve_credential "PublicKeyCredential option"
  | Resolve_stream
  | Reject string string
  | Fire

datatype outcome =
    Credential "thrown + PublicKeyCredential option"
  | Stream "thrown + stream"
  | Elapsed

text \<open>
  The platform's side of a settlement. A new stream is live from the moment it is handed
  out. A settlement that does not fit the operation cannot occur (\<open>None\<close>).
\<close>

fun platform_settle :: "request \<Rightarrow> settlement \<Rightarrow> state \<Rightarrow> (outcome \<times> state) option" where
  "platform_settle GetUserMedia Resolve_stream s =
     Some (Stream (Inr (opened s)), s\<lparr>opened := Suc (opened s), live := live s @ [opened s]\<rparr>)"
| "platform_settle GetUserMedia (Reject n m) s = Some (Stream (Inl (DOMException n m)), s)"
| "platform_settle (CredentialsCreate c r u) (Resolve_credential cred) s =
     Some (Credential (Inr cred), s)"
| "platform_settle (CredentialsCreate c r u) (Reject n m) s =
     Some (Credential (Inl (DOMException n m)), s)"
| "platform_settle (CredentialsGet c ids) (Resolve_credential cred) s =
     Some (Credential (Inr cred), s)"
| "platform_settle (CredentialsGet c ids) (Reject n m) s =
     Some (Credential (Inl (DOMException n m)), s)"
| "platform_settle (SetTimeout d) Fire s = Some (Elapsed, s)"
| "platform_settle _ _ s = None"

text \<open>The program's side: the suspended flow continues in its frame.\<close>

fun resume :: "frame \<Rightarrow> outcome \<Rightarrow> state \<Rightarrow> state" where
  "resume StartCamera_camera (Stream settled) s =
     (case requestCameraAccess_resume settled s of (r, s1) \<Rightarrow> startCamera_resume r s1)"
| "resume WebAuthn_authenticate (Credential settled) s =
     (case authenticateUser_resume settled s of
        (r, s1) \<Rightarrow> handleWebAuthnAuthentication_resume_authenticate r s1)"
| "resume WebAuthn_register (Credential settled) s =
     (case registerCredential_resume settled s of
        (r, s1) \<Rightarrow> handleWebAuthnAuthentication_resume_register r s1)"
| "resume WebAuthn_camera (Stream settled) s =
     (case requestCameraAccess_resume settled s of
        (r, s1) \<Rightarrow> handleWebAuthnAuthentication_resume_camera r s1)"
| "resume AutoStop Elapsed s = autoStop s"
| "resume _ _ s = s"

text \<open>
  One turn of the event loop: a click listener runs (the listener of the camera toggle,
  or of the biometric button), or the platform settles the pending operation at a position.
  A listener may run in any state: nothing here relies on a disabled button keeping clicks
  away. An \<^verbatim>\<open>await\<close> of a call that fails before any platform call continues in the
  same turn, since no other turn can come in between.
\<close>

datatype event = Click_toggle | Click_webauthn | Settle nat settlement

fun step :: "event \<Rightarrow> state \<Rightarrow> state" where
  "step Click_toggle s = (if isCameraActive s then handleStopCamera s else startCamera s)"
| "step Click_webauthn s = handleWebAuthnAuthentication s"
| "step (Settle i x) s =
     (if i < length (pending s) then
        (case pending s ! i of (req, fr) \<Rightarrow>
           (case platform_settle req x s of
              None \<Rightarrow> s
            | Some (out, s1) \<Rightarrow>
                resume fr out (s1\<lparr>pending := take i (pending s1) @ drop (Suc i) (pending s1)\<rparr>)))
      else s)"

fun run :: "event list \<Rightarrow> state \<Rightarrow> state" where
  "run [] s = s"
| "run (e # es) s = run es (step e s)"

text \<open>
  The page as loaded, on a given platform: the initial values of the module variables
  (\<^verbatim>\<open>currentStream = null\<close>, the three flags \<^verbatim>\<open>false\<close>), the page as first rendered,
  nothing pending.
\<close>

definition page_load :: "bool \<Rightarrow> bool \<Rightarrow> (string \<rightharpoonup> string) \<Rightarrow> state" where
  "page_load webauthn media storage =
     \<lparr>PublicKeyCredential_present = webauthn, credentials_present = webauthn,
      mediaDevices_present = media, getUserMedia_present = media,
      hostname = ''localhost'', localStorage = storage,
      entropy = (\<lambda>i. of_nat i), drawn = 0, opened = 0, live = [],
      currentStream = None, isCameraActive = False, isAuthenticating = False,
      isAuthenticated = False, video_srcObject = None, video_active = False,
      toggleButton_disabled = False, toggleButton_text = Enable_Camera,
      toggleButton_active = False, webauthnButton_disabled = False,
      webauthnButton_text = Authenticate_with_FaceID, webauthnButton_authenticated = False,
      statusMessage = None, errorMessage = None, helpInstructions = None,
      pending = [], issued = []\<rparr>"

section \<open>Notions used to state the properties\<close>

text \<open>
  A frame fits the operation it was suspended on: the camera frames wait for
  \<^verbatim>\<open>getUserMedia\<close>, the register frame for \<^verbatim>\<open>credentials.create\<close>, the authenticate
  frame for \<^verbatim>\<open>credentials.get\<close>, the timer callback for \<^verbatim>\<open>setTimeout\<close>.
\<close>

fun fits :: "request \<Rightarrow> frame \<Rightarrow> bool" where
  "fits GetUserMedia fr = (fr = StartCamera_camera \<or> fr = WebAuthn_camera)"
| "fits (CredentialsCreate c r u) fr = (fr = WebAuthn_register)"
| "fits (CredentialsGet c ids) fr = (fr = WebAuthn_authenticate)"
| "fits (SetTimeout d) fr = (fr = AutoStop)"

definition well_paired :: "state \<Rightarrow> bool" where
  "well_paired s = list_all (\<lambda>p. fits (fst p) (snd p)) (pending s)"

text \<open>
  The flows of \<^verbatim>\<open>handleWebAuthnAuthentication\<close> that are suspended, the credential calls the
  platform has not settled yet, and the credential calls ever issued.
\<close>

definition flows_in_flight :: "state \<Rightarrow> nat" where
  "flows_in_flight s = length (filter (\<lambda>p. webauthn_frame (snd p)) (pending s))"

definition credential_calls_in_flight :: "state \<Rightarrow> nat" where
  "credential_calls_in_flight s = length (filter (\<lambda>p. credential_request (fst p)) (pending s))"

definition credential_calls_issued :: "state \<Rightarrow> nat" where
  "credential_calls_issued s = length (filter (\<lambda>p. credential_request (fst p)) (issued s))"

definition busy_invariant :: "state \<Rightarrow> bool" where
  "busy_invariant s =
     (well_paired s \<and> flows_in_flight s = (if isAuthenticating s then 1 else 0))"

definition camera_available :: "state \<Rightarrow> bool" where
  "camera_available s = (mediaDevices_present s \<and> getUserMedia_present s)"

text \<open>
  What a click on the biometric button is to issue before it returns to the event loop:
  nothing without platform support, else \<^verbatim>\<open>credentials.get\<close> restricted to the stored
  identifier when there is one, else \<^verbatim>\<open>credentials.create\<close>.
\<close>

definition first_call :: "state \<Rightarrow> (request \<times> frame) list" where
  "first_call s =
     (if \<not> checkWebAuthnSupport s then []
      else case getStoredCredentialId s of
        Some storedCredentialId \<Rightarrow>
          [(CredentialsGet (fst (generateChallenge s)) [storedCredentialId],
            WebAuthn_authenticate)]
      | None \<Rightarrow>
          [(CredentialsCreate (fst (generateChallenge s)) (hostname s)
              (fst (generateUserId (snd (generateChallenge s)))), WebAuthn_register)])"

text \<open>A credential call has resolved when it settled with a credential, not with \<^verbatim>\<open>null\<close>.\<close>

fun resolved :: "thrown + PublicKeyCredential option \<Rightarrow> bool" where
  "resolved (Inr (Some cred)) = True"
| "resolved (Inr None) = False"
| "resolved (Inl err) = False"

text \<open>
  The camera gateway's view of the state: the stream it tracks and the streams that are
  live. \<open>tracked_only\<close>: every live stream is the tracked one.
\<close>

definition gateway :: "state \<Rightarrow> stream option \<times> stream list" where
  "gateway s = (currentStream s, live s)"

definition tracked_only :: "state \<Rightarrow> bool" where
  "tracked_only s = (live s = (case currentStream s of None \<Rightarrow> [] | Some stream \<Rightarrow> [stream]))"

text \<open>
  An event acquires a stream when it settles a pending camera request with a stream. A
  run never supersedes when no stream is acquired while another one is still tracked.
\<close>

fun acquires :: "event \<Rightarrow> state \<Rightarrow> bool" where
  "acquires (Settle i Resolve_stream) s =
     (i < length (pending s) \<and> fst (pending s ! i) = GetUserMedia)"
| "acquires e s = False"

fun never_supersedes :: "event list \<Rightarrow> state \<Rightarrow> bool" where
  "never_supersedes [] s = True"
| "never_supersedes (e # es) s =
     ((if acquires e s then currentStream s = None else True)
      \<and> never_supersedes es (step e s))"

section \<open>Base64 is a round trip\<close>

lemma length_base64_alphabet: "length base64_alphabet = 64"
  by (simp add: base64_alphabet_def)

lemma distinct_base64_alphabet: "distinct base64_alphabet"
  by (simp add: base64_alphabet_def)

lemma pad_not_in_alphabet: "CHR ''='' \<notin> set base64_alphabet"
  by (simp add: base64_alphabet_def)

lemma whitespace_not_in_alphabet: "ascii_whitespace c \<Longrightarrow> c \<notin> set base64_alphabet"
  by (auto simp add: base64_alphabet_def ascii_whitespace_def)

lemma index_of_nth: "distinct xs \<Longrightarrow> i < length xs \<Longrightarrow> index_of (xs ! i) xs = Some i"
proof (induction xs arbitrary: i)
  case Nil
  then show ?case by simp
next
  case (Cons x xs)
  show ?case
  proof (cases i)
    case 0
    then show ?thesis by simp
  next
    case (Suc j)
    with Cons.prems have "j < length xs" "xs ! j \<noteq> x" by auto
    with Cons Suc show ?thesis by auto
  qed
qed

lemma sextet_char_in_alphabet: "i < 64 \<Longrightarrow> sextet_char i \<in> set base64_alphabet"
  by (simp add: sextet_char_def length_base64_alphabet)

lemma char_sextet_char: "i < 64 \<Longrightarrow> char_sextet (sextet_char i) = Some i"
  by (simp add: char_sextet_def sextet_char_def index_of_nth distinct_base64_alphabet
      length_base64_alphabet)

lemma sextet_char_not_pad: "i < 64 \<Longrightarrow> sextet_char i \<noteq> CHR ''=''"
  using pad_not_in_alphabet sextet_char_in_alphabet by metis

lemma sextet_char_not_whitespace: "i < 64 \<Longrightarrow> \<not> ascii_whitespace (sextet_char i)"
  using whitespace_not_in_alphabet sextet_char_in_alphabet by metis

lemma btoa_groups_sextets: "btoa_groups xs = map sextet_char (sextets xs) @ padding xs"
proof (induction xs rule: btoa_groups.induct)
  case (1 a b c rest)
  have "padding (a # b # c # rest) = padding rest"
    by (simp add: padding_def)
  with 1 show ?case by simp
qed (simp_all add: padding_def numeral_2_eq_2)

lemma sextet1: "(a::nat) < 256 \<Longrightarrow> a div 4 < 64" by simp
lemma sextet2: "(a::nat) < 256 \<Longrightarrow> b < 256 \<Longrightarrow> (a mod 4) * 16 + b div 16 < 64"
proof -
  assume "b < 256"
  then have "b div 16 < 16" by simp
  moreover have "a mod 4 < 4" by simp
  ultimately show ?thesis by linarith
qed
lemma sextet3: "(b::nat) < 256 \<Longrightarrow> c < 256 \<Longrightarrow> (b mod 16) * 4 + c div 64 < 64"
proof -
  assume "c < 256"
  then have "c div 64 < 4" by simp
  moreover have "b mod 16 < 16" by simp
  ultimately show ?thesis by linarith
qed

lemma octet1: "(a::nat) div 4 * 4 + (a mod 4 * 16 + b div 16) div 16 = a" if "b < 256"
proof -
  from that have "b div 16 < 16" by simp
  then have "(a mod 4 * 16 + b div 16) div 16 = a mod 4" by simp
  then show ?thesis by simp
qed

lemma octet2: "(a mod 4 * 16 + b div 16) mod 16 * 16 + (b mod 16 * 4 + c div 64) div 4 = (b::nat)" if "b < 256" "c < 256"
proof -
  from that have 1: "b div 16 < 16" by simp
  from that have 2: "c div 64 < 4" by simp
  show ?thesis using 1 2 by simp
qed

lemma octet3: "(b mod 16 * 4 + c div 64) mod 4 * 64 + c mod 64 = (c::nat)" if "c < 256"
proof -
  from that have 2: "c div 64 < 4" by simp
  show ?thesis using 2 by simp
qed

lemma octet2': "(a mod 4 * 16 + b div 16) mod 16 * 16 + (b mod 16 * 4) div 4 = (b::nat)" if "b < 256"
  using octet2 [of b 0 a] that by simp

lemma octet1': "(a::nat) div 4 * 4 + (a mod 4 * 16) div 16 = a"
  using octet1 [of 0 a] by simp

lemma sextets_bound: "\<forall>x \<in> set xs. x < 256 \<Longrightarrow> \<forall>y \<in> set (sextets xs). y < 64"
proof (induction xs rule: sextets.induct)
  case (1 a b c rest)
  then have "a < 256" "b < 256" "c < 256" and r: "\<forall>y\<in>set (sextets rest). y < 64" by auto
  then show ?case by (simp add: sextet1 sextet2 sextet3)
next
  case (2 a b)
  then have "a < 256" "b < 256" by auto
  then show ?case using sextet3 [of b 0] by (simp add: sextet1 sextet2)
next
  case (3 a)
  then have "a < 256" by auto
  then show ?case using sextet2 [of a 0] by (simp add: sextet1)
qed simp

lemma atob_groups_sextets: "\<forall>x \<in> set xs. x < 256 \<Longrightarrow> atob_groups (sextets xs) = xs"
proof (induction xs rule: sextets.induct)
  case (1 a b c rest)
  then have "a < 256" "b < 256" "c < 256" and r: "atob_groups (sextets rest) = rest" by auto
  then show ?case by (simp only: sextets.simps atob_groups.simps octet1 octet2 octet3)
next
  case (2 a b)
  then have "a < 256" "b < 256" by auto
  then show ?case by (simp only: sextets.simps atob_groups.simps octet1 octet2')
next
  case (3 a)
  then show ?case by (simp only: sextets.simps atob_groups.simps octet1')
qed simp

lemma length_sextets: "length (sextets xs) mod 4 \<noteq> 1"
  by (induction xs rule: sextets.induct) simp_all

lemma length_btoa_groups: "length (btoa_groups xs) mod 4 = 0"
  by (induction xs rule: btoa_groups.induct) simp_all

lemma sextets_Nil_iff: "sextets xs = [] \<longleftrightarrow> xs = []"
  by (induction xs rule: sextets.induct) simp_all

lemma padding_cases:
  "padding xs = [] \<or> (xs \<noteq> [] \<and> (padding xs = ''='' \<or> padding xs = ''==''))"
proof -
  consider "length xs mod 3 = 0" | "length xs mod 3 = 1" | "length xs mod 3 = 2"
    by linarith
  then show ?thesis
  proof cases
    case 1
    then show ?thesis by (simp add: padding_def)
  next
    case 2
    then have "xs \<noteq> []" by auto
    with 2 show ?thesis by (simp add: padding_def numeral_2_eq_2)
  next
    case 3
    then have "xs \<noteq> []" by auto
    with 3 show ?thesis by (simp add: padding_def)
  qed
qed

lemma those_char_sextet:
  "\<forall>y \<in> set ss. y < 64 \<Longrightarrow> those (map char_sextet (map sextet_char ss)) = Some ss"
  by (induction ss) (simp_all add: char_sextet_char)

lemma strip_padding_core:
  assumes len: "length (cs @ p) mod 4 = 0"
    and core: "CHR ''='' \<notin> set cs"
    and pad: "p = [] \<or> (cs \<noteq> [] \<and> (p = ''='' \<or> p = ''==''))"
  shows "strip_padding (cs @ p) = cs"
proof -
  have no_suffix: "\<not> suffix ''='' zs" if "CHR ''='' \<notin> set zs" for zs
  proof
    assume "suffix ''='' zs"
    then have "set ''='' \<subseteq> set zs" by (rule set_mono_suffix)
    with that show False by simp
  qed
  have no_suffix2: "\<not> suffix ''=='' zs" if "CHR ''='' \<notin> set zs" for zs
  proof
    assume "suffix ''=='' zs"
    then have "set ''=='' \<subseteq> set zs" by (rule set_mono_suffix)
    with that show False by simp
  qed
  from pad consider "p = []" | "p = ''=''" | "p = ''==''" by blast
  then show ?thesis
  proof cases
    case 1
    have "\<not> suffix ''='' cs" "\<not> suffix ''=='' cs"
      using core no_suffix no_suffix2 by blast+
    then show ?thesis unfolding strip_padding_def 1 by simp
  next
    case 2
    have "suffix (''='' @ ''='') (cs @ ''='') = suffix ''='' cs"
      by (rule same_suffix_suffix)
    then have a: "\<not> suffix ''=='' (cs @ ''='')"
      using no_suffix [OF core] by simp
    have b: "suffix ''='' (cs @ ''='')" by (rule suffix_appendI) simp
    have c: "take (length (cs @ ''='') - 1) (cs @ ''='') = cs" by simp
    show ?thesis unfolding strip_padding_def 2 using len [unfolded 2] a b c by presburger
  next
    case 3
    have b: "suffix ''=='' (cs @ ''=='')" by (rule suffix_appendI) simp
    have c: "take (length (cs @ ''=='') - 2) (cs @ ''=='') = cs" by simp
    show ?thesis unfolding strip_padding_def 3 using len [unfolded 3] b c by presburger
  qed
qed

lemma atob_btoa: "atob (btoa s) = Some s"
proof -
  define xs :: "nat list" where "xs = map of_char s"
  have bytes: "\<forall>x \<in> set xs. x < 256" by (auto simp add: xs_def)
  have six: "\<forall>y \<in> set (sextets xs). y < 64" using bytes by (rule sextets_bound)
  define cs where "cs = map sextet_char (sextets xs)"
  have enc: "btoa s = cs @ padding xs"
    by (simp add: btoa_def xs_def cs_def btoa_groups_sextets)
  have core: "CHR ''='' \<notin> set cs"
    using six sextet_char_not_pad by (fastforce simp add: cs_def)
  have "\<forall>c \<in> set (padding xs). \<not> ascii_whitespace c"
    by (simp add: padding_def ascii_whitespace_def)
  moreover have "\<forall>c \<in> set cs. \<not> ascii_whitespace c"
    using six by (auto simp add: cs_def sextet_char_not_whitespace)
  ultimately have flt: "filter (\<lambda>c. \<not> ascii_whitespace c) (btoa s) = cs @ padding xs"
    by (simp add: enc)
  have len: "length (cs @ padding xs) mod 4 = 0"
    using length_btoa_groups [of xs] by (simp add: btoa_groups_sextets cs_def)
  have pad: "padding xs = [] \<or> (cs \<noteq> [] \<and> (padding xs = ''='' \<or> padding xs = ''==''))"
    using padding_cases [of xs] by (auto simp add: cs_def sextets_Nil_iff)
  have strip: "strip_padding (cs @ padding xs) = cs"
    using len core pad by (rule strip_padding_core)
  have l1: "length cs mod 4 \<noteq> 1"
    using length_sextets [of xs] by (simp add: cs_def)
  have dec: "those (map char_sextet cs) = Some (sextets xs)"
    unfolding cs_def using six by (rule those_char_sextet)
  have round: "map char_of (atob_groups (sextets xs)) = s"
    using atob_groups_sextets [OF bytes] by (simp add: xs_def comp_def)
  show ?thesis
    using l1 by (simp add: atob_def flt strip dec round)
qed

lemma btoa_Nil_iff: "btoa s = [] \<longleftrightarrow> s = []"
proof (cases s)
  case Nil
  then show ?thesis by (simp add: btoa_def)
next
  case (Cons c cs)
  then have "sextets (map of_char s) \<noteq> []" by (simp add: sextets_Nil_iff)
  then show ?thesis using Cons by (simp add: btoa_def btoa_groups_sextets)
qed

subsection \<open>The credential store\<close>

lemma byte_of_char_of_byte: "of_nat (unat (b :: byte) mod 256) = b"
proof -
  have "unat b < 256" using unsigned_less [of b] by simp
  then show ?thesis by simp
qed

lemma base64_roundtrip: "base64ToUint8Array (uint8ArrayToBase64 buffer) = Some buffer"
  by (simp add: base64ToUint8Array_def uint8ArrayToBase64_def atob_btoa comp_def
      byte_of_char_of_byte)

lemma uint8ArrayToBase64_Nil_iff: "uint8ArrayToBase64 buffer = [] \<longleftrightarrow> buffer = []"
  by (simp add: uint8ArrayToBase64_def btoa_Nil_iff)

lemma getStoredCredentialId_storeCredentialId:
  "getStoredCredentialId (storeCredentialId credentialId s) =
     (if credentialId = [] then None else Some credentialId)"
  by (simp add: getStoredCredentialId_def storeCredentialId_def base64_roundtrip
      uint8ArrayToBase64_Nil_iff)

subsection \<open>The pre-checks of the biometric gateway\<close>

lemma catch_classified:
  "registerCredential_catch (CapabilityError t m orig) = CapabilityError t m orig"
  "authenticateUser_catch (CapabilityError t m orig) = CapabilityError t m orig"
  by (simp_all add: registerCredential_catch_def authenticateUser_catch_def)

lemma authenticateUser_unsupported:
  "\<not> checkWebAuthnSupport s \<Longrightarrow> authenticateUser s =
     (Inl (CapabilityError NotSupported
        ''WebAuthn is not supported in this browser. Please use a modern browser like Chrome, Firefox, Safari, or Edge.''
        None), s)"
  by (simp add: authenticateUser_def catch_classified)

lemma authenticateUser_no_credential:
  "checkWebAuthnSupport s \<Longrightarrow> getStoredCredentialId s = None \<Longrightarrow> authenticateUser s =
     (Inl (CapabilityError InvalidState ''No credential found. Please register first.'' None), s)"
  by (simp add: authenticateUser_def catch_classified)

lemma authenticateUser_credential:
  "checkWebAuthnSupport s \<Longrightarrow> getStoredCredentialId s = Some storedCredentialId \<Longrightarrow>
   authenticateUser s =
     (Inr (CredentialsGet (fst (generateChallenge s)) [storedCredentialId]),
      snd (generateChallenge s))"
  by (simp add: authenticateUser_def split: prod.splits)

lemma registerCredential_unsupported:
  "\<not> checkWebAuthnSupport s \<Longrightarrow> registerCredential s =
     (Inl (CapabilityError NotSupported
        ''WebAuthn is not supported in this browser. Please use a modern browser like Chrome, Firefox, Safari, or Edge.''
        None), s)"
  by (simp add: registerCredential_def catch_classified)

lemma registerCredential_resume_credential:
  "registerCredential_resume (Inr (Some cred)) s =
     (Inr \<lparr>success = True, credential = Some cred, isNewRegistration = Some True\<rparr>,
      storeCredentialId (rawId cred) s)"
  by (simp add: registerCredential_resume_def)

lemma checkWebAuthnSupport_storeCredentialId:
  "checkWebAuthnSupport (storeCredentialId credentialId s) = checkWebAuthnSupport s"
  by (simp add: checkWebAuthnSupport_def storeCredentialId_def)

lemma generateChallenge_storeCredentialId:
  "fst (generateChallenge (storeCredentialId credentialId s)) = fst (generateChallenge s)"
  by (simp add: generateChallenge_def getRandomValues_def storeCredentialId_def)

lemma checkWebAuthnSupport_page_load: "checkWebAuthnSupport (page_load w m st) = w"
  by (simp add: checkWebAuthnSupport_def page_load_def)

section \<open>What each handler adds to the event loop\<close>

lemmas ui_defs = hideMessages_def showStatusMessage_def showError_def startCamera_catch_def
  handleWebAuthnAuthentication_finally_def suspend_def

lemmas gateway_resume_defs = authenticateUser_resume_def registerCredential_resume_def
  requestCameraAccess_resume_def storeCredentialId_def

lemmas continuation_defs = handleWebAuthnAuthentication_resume_authenticate_def
  handleWebAuthnAuthentication_resume_register_def
  handleWebAuthnAuthentication_resume_camera_def startCamera_resume_def autoStop_def

lemma requestCameraAccess_cases:
  "requestCameraAccess s = (if camera_available s then Inr GetUserMedia
     else Inl (requestCameraAccess_catch (CapabilityError NotSupported
          ''Camera access is not supported in this browser. Please use a modern browser like Chrome, Firefox, Safari, or Edge.''
          None)))"
  by (simp add: requestCameraAccess_def camera_available_def)

lemma stopCamera_frame:
  "pending (stopCamera s) = pending s" "issued (stopCamera s) = issued s"
  "isAuthenticating (stopCamera s) = isAuthenticating s"
  by (simp_all add: stopCamera_def split: option.splits)

lemma startCamera_effect:
  "pending (startCamera s) =
     pending s @ (if camera_available s then [(GetUserMedia, StartCamera_camera)] else [])"
  "issued (startCamera s) =
     issued s @ (if camera_available s then [(GetUserMedia, StartCamera_camera)] else [])"
  "isAuthenticating (startCamera s) = isAuthenticating s"
  by (simp_all add: startCamera_def requestCameraAccess_cases camera_available_def ui_defs
      Let_def)

lemma handleStopCamera_effect:
  "pending (handleStopCamera s) = pending s"
  "issued (handleStopCamera s) = issued s"
  "isAuthenticating (handleStopCamera s) = isAuthenticating s"
  by (simp_all add: handleStopCamera_def ui_defs stopCamera_frame)

lemma catch_effect:
  "pending (handleWebAuthnAuthentication_catch err s) = pending s"
  "issued (handleWebAuthnAuthentication_catch err s) = issued s"
  by (simp_all add: handleWebAuthnAuthentication_catch_def ui_defs Let_def stopCamera_frame)

lemma finally_effect:
  "pending (handleWebAuthnAuthentication_finally s) = pending s"
  "issued (handleWebAuthnAuthentication_finally s) = issued s"
  "isAuthenticating (handleWebAuthnAuthentication_finally s) = False"
  by (simp_all add: handleWebAuthnAuthentication_finally_def)

lemma camera_effect:
  "pending (handleWebAuthnAuthentication_camera s) =
     pending s @ (if camera_available s then [(GetUserMedia, WebAuthn_camera)] else [])"
  "issued (handleWebAuthnAuthentication_camera s) =
     issued s @ (if camera_available s then [(GetUserMedia, WebAuthn_camera)] else [])"
  "isAuthenticating (handleWebAuthnAuthentication_camera s) =
     (camera_available s \<and> isAuthenticating s)"
  by (simp_all add: handleWebAuthnAuthentication_camera_def requestCameraAccess_cases
      finally_effect suspend_def)

lemma handleWebAuthnAuthentication_effect:
  assumes "\<not> isAuthenticating s"
  shows "pending (handleWebAuthnAuthentication s) = pending s @ first_call s"
    and "issued (handleWebAuthnAuthentication s) = issued s @ first_call s"
    and "isAuthenticating (handleWebAuthnAuthentication s) = checkWebAuthnSupport s"
  using assms
  by (simp_all add: handleWebAuthnAuthentication_def first_call_def Let_def
      catch_effect finally_effect authenticateUser_def registerCredential_def
      checkWebAuthnSupport_def getStoredCredentialId_def generateChallenge_def
      generateUserId_def getRandomValues_def hideMessages_def suspend_def
      split: option.splits prod.splits)

lemma first_call_cases:
  "first_call s = [] \<and> \<not> checkWebAuthnSupport s
 \<or> (\<exists>c ids. first_call s = [(CredentialsGet c ids, WebAuthn_authenticate)])
     \<and> checkWebAuthnSupport s
 \<or> (\<exists>c rp u. first_call s = [(CredentialsCreate c rp u, WebAuthn_register)])
     \<and> checkWebAuthnSupport s"
  by (auto simp add: first_call_def split: option.splits)

lemma first_call_credential:
  "length (filter (\<lambda>p. credential_request (fst p)) (first_call s)) =
     (if checkWebAuthnSupport s then 1 else 0)"
  by (simp add: first_call_def split: option.splits)

lemma resolved_Inr: "resolved (Inr c) = (c \<noteq> None)"
  by (cases c) simp_all

lemma resume_credential_effect:
  assumes "fr = WebAuthn_authenticate \<or> fr = WebAuthn_register"
  shows "pending (resume fr (Credential settled) s) =
      pending s @ (if resolved settled \<and> camera_available s
                   then [(GetUserMedia, WebAuthn_camera)] else [])"
    and "issued (resume fr (Credential settled) s) =
      issued s @ (if resolved settled \<and> camera_available s
                  then [(GetUserMedia, WebAuthn_camera)] else [])"
    and "isAuthenticating (resume fr (Credential settled) s) =
      (resolved settled \<and> camera_available s \<and> isAuthenticating s)"
proof -
  consider err where "settled = Inl err" | "settled = Inr None"
    | cred where "settled = Inr (Some cred)"
    by (cases settled rule: resolved.cases) auto
  then have "pending (resume fr (Credential settled) s) =
      pending s @ (if resolved settled \<and> camera_available s
                   then [(GetUserMedia, WebAuthn_camera)] else [])
    \<and> issued (resume fr (Credential settled) s) =
      issued s @ (if resolved settled \<and> camera_available s
                  then [(GetUserMedia, WebAuthn_camera)] else [])
    \<and> isAuthenticating (resume fr (Credential settled) s) =
      (resolved settled \<and> camera_available s \<and> isAuthenticating s)"
  proof cases
    case 1
    with assms show ?thesis
      by (auto simp add: gateway_resume_defs continuation_defs catch_effect finally_effect)
  next
    case 2
    with assms show ?thesis
      by (auto simp add: gateway_resume_defs continuation_defs catch_effect finally_effect)
  next
    case 3
    with assms show ?thesis
      by (auto simp add: gateway_resume_defs continuation_defs camera_effect
          showStatusMessage_def camera_available_def)
  qed
  then show "pending (resume fr (Credential settled) s) =
      pending s @ (if resolved settled \<and> camera_available s
                   then [(GetUserMedia, WebAuthn_camera)] else [])"
    and "issued (resume fr (Credential settled) s) =
      issued s @ (if resolved settled \<and> camera_available s
                  then [(GetUserMedia, WebAuthn_camera)] else [])"
    and "isAuthenticating (resume fr (Credential settled) s) =
      (resolved settled \<and> camera_available s \<and> isAuthenticating s)"
    by simp_all
qed

lemma resume_stream_effect:
  "pending (resume StartCamera_camera (Stream r) s) = pending s"
  "issued (resume StartCamera_camera (Stream r) s) = issued s"
  "isAuthenticating (resume StartCamera_camera (Stream r) s) = isAuthenticating s"
  by (cases r, simp_all add: requestCameraAccess_resume_def startCamera_resume_def
      startCamera_catch_def showError_def Let_def)+

lemma resume_webauthn_camera_effect:
  "pending (resume WebAuthn_camera (Stream r) s) =
     pending s @ (if isl r then [] else [(SetTimeout 3000, AutoStop)])"
  "issued (resume WebAuthn_camera (Stream r) s) =
     issued s @ (if isl r then [] else [(SetTimeout 3000, AutoStop)])"
  "isAuthenticating (resume WebAuthn_camera (Stream r) s) = False"
  by (cases r, simp_all add: requestCameraAccess_resume_def
      handleWebAuthnAuthentication_resume_camera_def finally_effect suspend_def)+

lemma resume_timer_effect:
  "pending (resume AutoStop Elapsed s) = pending s"
  "issued (resume AutoStop Elapsed s) = issued s"
  "isAuthenticating (resume AutoStop Elapsed s) = isAuthenticating s"
  by (simp_all add: autoStop_def stopCamera_frame)

lemma platform_settle_cases:
  assumes "platform_settle req x s = Some (out, s1)"
  shows "pending s1 = pending s \<and> issued s1 = issued s
       \<and> isAuthenticating s1 = isAuthenticating s
       \<and> camera_available s1 = camera_available s
       \<and> (case req of
             GetUserMedia \<Rightarrow> \<exists>r. out = Stream r \<and> (isl r \<longleftrightarrow> x \<noteq> Resolve_stream)
           | CredentialsCreate c rp u \<Rightarrow> \<exists>r. out = Credential r \<and> (resolved r \<longleftrightarrow> (\<exists>cred. x = Resolve_credential (Some cred)))
           | CredentialsGet c ids \<Rightarrow> \<exists>r. out = Credential r \<and> (resolved r \<longleftrightarrow> (\<exists>cred. x = Resolve_credential (Some cred)))
           | SetTimeout d \<Rightarrow> out = Elapsed)"
  using assms
  by (cases "(req, x, s)" rule: platform_settle.cases)
    (auto simp add: camera_available_def resolved_Inr)

lemma resume_new:
  "\<exists>new. pending (resume fr out s) = pending s @ new
      \<and> issued (resume fr out s) = issued s @ new
      \<and> list_all (\<lambda>p. fits (fst p) (snd p)) new
      \<and> ((GetUserMedia, WebAuthn_camera) \<in> set new \<longrightarrow>
           (fr = WebAuthn_authenticate \<or> fr = WebAuthn_register)
           \<and> (\<exists>r. out = Credential r \<and> resolved r))"
proof (cases out)
  case (Credential r)
  note reg = resume_credential_effect [OF disjI2 [OF refl], of r s]
  note auth = resume_credential_effect [OF disjI1 [OF refl], of r s]
  show ?thesis
  proof (cases fr)
    case WebAuthn_authenticate
    show ?thesis
      unfolding Credential WebAuthn_authenticate auth(1,2) by auto
  next
    case WebAuthn_register
    show ?thesis
      unfolding Credential WebAuthn_register reg(1,2) by auto
  qed (simp_all add: Credential)
next
  case (Stream r)
  show ?thesis
  proof (cases fr)
    case StartCamera_camera
    show ?thesis
      unfolding Stream StartCamera_camera resume_stream_effect by simp
  next
    case WebAuthn_camera
    show ?thesis
      unfolding Stream WebAuthn_camera resume_webauthn_camera_effect by auto
  qed (simp_all add: Stream)
next
  case Elapsed
  show ?thesis
  proof (cases fr)
    case AutoStop
    show ?thesis
      unfolding Elapsed AutoStop resume_timer_effect by simp
  qed (simp_all add: Elapsed)
qed

lemma step_new:
  "\<exists>new. issued (step e s) = issued s @ new
      \<and> ((GetUserMedia, WebAuthn_camera) \<in> set new \<longrightarrow>
           (\<exists>i cred req fr. e = Settle i (Resolve_credential (Some cred))
              \<and> i < length (pending s) \<and> pending s ! i = (req, fr)
              \<and> credential_request req
              \<and> (fr = WebAuthn_authenticate \<or> fr = WebAuthn_register)))"
proof (cases e)
  case Click_toggle
  then show ?thesis
    by (simp add: startCamera_effect handleStopCamera_effect)
next
  case Click_webauthn
  show ?thesis
  proof (cases "isAuthenticating s")
    case True
    with Click_webauthn show ?thesis by (simp add: handleWebAuthnAuthentication_def)
  next
    case False
    from Click_webauthn first_call_cases [of s] show ?thesis
      by (auto simp add: handleWebAuthnAuthentication_effect [OF False])
  qed
next
  case (Settle i x)
  show ?thesis
  proof (cases "i < length (pending s)")
    case False
    with Settle show ?thesis by simp
  next
    case True
    obtain req fr where p: "pending s ! i = (req, fr)" by (cases "pending s ! i")
    show ?thesis
    proof (cases "platform_settle req x s")
      case None
      with Settle True p show ?thesis by simp
    next
      case (Some a)
      obtain out s1 where a: "a = (out, s1)" by (cases a)
      let ?s2 = "s1\<lparr>pending := take i (pending s1) @ drop (Suc i) (pending s1)\<rparr>"
      from Some a have plat: "platform_settle req x s = Some (out, s1)" by simp
      note pc = platform_settle_cases [OF plat]
      have st: "step e s = resume fr out ?s2"
        using Settle True p plat by simp
      obtain new where new: "issued (resume fr out ?s2) = issued ?s2 @ new"
        and cam: "(GetUserMedia, WebAuthn_camera) \<in> set new \<longrightarrow>
           (fr = WebAuthn_authenticate \<or> fr = WebAuthn_register)
           \<and> (\<exists>r. out = Credential r \<and> resolved r)"
        using resume_new [of fr out ?s2] by blast
      have iss: "issued (step e s) = issued s @ new"
        using new pc by (simp add: st)
      have "\<exists>cred. x = Resolve_credential (Some cred) \<and> credential_request req"
        if "out = Credential r" "resolved r" for r
        using pc that by (cases req) auto
      with cam have "(GetUserMedia, WebAuthn_camera) \<in> set new \<longrightarrow>
           (\<exists>cred. e = Settle i (Resolve_credential (Some cred))
              \<and> i < length (pending s) \<and> pending s ! i = (req, fr)
              \<and> credential_request req
              \<and> (fr = WebAuthn_authenticate \<or> fr = WebAuthn_register))"
        using Settle True p by blast
      with iss show ?thesis by blast
    qed
  qed
qed

section \<open>One biometric flow at a time\<close>

lemma length_filter_remove_nth:
  assumes "i < length xs"
  shows "length (filter P (take i xs @ drop (Suc i) xs)) + (if P (xs ! i) then 1 else 0) =
    length (filter P xs)"
proof -
  have "xs = take i xs @ xs ! i # drop (Suc i) xs"
    using assms by (rule id_take_nth_drop)
  then have "length (filter P xs) = length (filter P (take i xs @ xs ! i # drop (Suc i) xs))"
    by simp
  then show ?thesis by simp
qed

lemma list_all_remove_nth:
  assumes "list_all P xs"
  shows "list_all P (take i xs @ drop (Suc i) xs)"
proof -
  have "set (take i xs @ drop (Suc i) xs) \<subseteq> set xs"
    using set_take_subset [of i xs] set_drop_subset [of "Suc i" xs] by auto
  with assms show ?thesis by (auto simp add: list_all_iff)
qed

lemma length_filter_mono:
  "\<forall>x \<in> set xs. P x \<longrightarrow> Q x \<Longrightarrow> length (filter P xs) \<le> length (filter Q xs)"
  by (induction xs) auto

lemma fits_credential: "fits req fr \<Longrightarrow> credential_request req \<Longrightarrow> webauthn_frame fr"
  by (cases req) auto

lemma credential_calls_le_flows:
  assumes "well_paired s"
  shows "credential_calls_in_flight s \<le> flows_in_flight s"
  unfolding credential_calls_in_flight_def flows_in_flight_def
proof (rule length_filter_mono)
  show "\<forall>p \<in> set (pending s). credential_request (fst p) \<longrightarrow> webauthn_frame (snd p)"
    using assms fits_credential by (auto simp add: well_paired_def list_all_iff)
qed

lemma well_paired_step:
  assumes wp: "well_paired s"
  shows "well_paired (step e s)"
proof (cases e)
  case Click_toggle
  with wp show ?thesis
    by (simp add: well_paired_def startCamera_effect handleStopCamera_effect)
next
  case Click_webauthn
  show ?thesis
  proof (cases "isAuthenticating s")
    case True
    with wp Click_webauthn show ?thesis by (simp add: handleWebAuthnAuthentication_def)
  next
    case False
    from wp Click_webauthn first_call_cases [of s] show ?thesis
      by (auto simp add: well_paired_def handleWebAuthnAuthentication_effect [OF False])
  qed
next
  case (Settle i x)
  show ?thesis
  proof (cases "i < length (pending s)")
    case False
    with wp Settle show ?thesis by simp
  next
    case True
    obtain req fr where p: "pending s ! i = (req, fr)" by (cases "pending s ! i")
    show ?thesis
    proof (cases "platform_settle req x s")
      case None
      with wp Settle True p show ?thesis by simp
    next
      case (Some a)
      obtain out s1 where a: "a = (out, s1)" by (cases a)
      let ?s2 = "s1\<lparr>pending := take i (pending s1) @ drop (Suc i) (pending s1)\<rparr>"
      from Some a have plat: "platform_settle req x s = Some (out, s1)" by simp
      note pc = platform_settle_cases [OF plat]
      have st: "step e s = resume fr out ?s2"
        using Settle True p plat by simp
      obtain new where new: "pending (resume fr out ?s2) = pending ?s2 @ new"
        and fit: "list_all (\<lambda>p. fits (fst p) (snd p)) new"
        using resume_new [of fr out ?s2] by blast
      have "list_all (\<lambda>p. fits (fst p) (snd p)) (take i (pending s) @ drop (Suc i) (pending s))"
        using wp unfolding well_paired_def by (rule list_all_remove_nth)
      with new fit pc show ?thesis
        by (simp add: well_paired_def st)
    qed
  qed
qed

lemma busy_invariant_settle:
  assumes inv: "busy_invariant s"
    and i: "i < length (pending s)"
    and p: "pending s ! i = (req, fr)"
    and plat: "platform_settle req x s = Some (out, s1)"
  shows "busy_invariant
    (resume fr out (s1\<lparr>pending := take i (pending s1) @ drop (Suc i) (pending s1)\<rparr>))"
proof -
  let ?rest = "take i (pending s) @ drop (Suc i) (pending s)"
  let ?s2 = "s1\<lparr>pending := take i (pending s1) @ drop (Suc i) (pending s1)\<rparr>"
  let ?W = "\<lambda>p :: request \<times> frame. webauthn_frame (snd p)"
  let ?F = "\<lambda>p :: request \<times> frame. fits (fst p) (snd p)"
  from plat have s1: "pending s1 = pending s" "isAuthenticating s1 = isAuthenticating s"
    "camera_available s1 = camera_available s"
    using platform_settle_cases [OF plat] by simp_all
  have s2: "pending ?s2 = ?rest" "isAuthenticating ?s2 = isAuthenticating s"
    "camera_available ?s2 = camera_available s"
    using s1 by (simp_all add: camera_available_def)
  from inv have wp: "list_all ?F (pending s)"
    and fl: "length (filter ?W (pending s)) = (if isAuthenticating s then 1 else 0)"
    by (simp_all add: busy_invariant_def well_paired_def flows_in_flight_def)
  have rest_wp: "list_all ?F ?rest" using wp by (rule list_all_remove_nth)
  have count: "length (filter ?W ?rest) + (if webauthn_frame fr then 1 else 0) =
      (if isAuthenticating s then 1 else 0)"
    using length_filter_remove_nth [OF i, of ?W] p fl by simp
  from wp i p have fit: "fits req fr"
    by (metis fst_conv list_all_length snd_conv)
  show ?thesis
  proof (cases req)
    case GetUserMedia
    then obtain r where out: "out = Stream r"
      using platform_settle_cases [OF plat] by auto
    from fit GetUserMedia consider "fr = StartCamera_camera" | "fr = WebAuthn_camera" by auto
    then show ?thesis
    proof cases
      case 1
      with count rest_wp show ?thesis
        by (auto simp add: busy_invariant_def well_paired_def flows_in_flight_def out
            resume_stream_effect s2 simp del: resume.simps split: if_splits)
    next
      case 2
      with count rest_wp show ?thesis
        by (auto simp add: busy_invariant_def well_paired_def flows_in_flight_def out
            resume_webauthn_camera_effect s2 simp del: resume.simps split: if_splits)
    qed
  next
    case (CredentialsCreate c rp u)
    then obtain r where out: "out = Credential r"
      using platform_settle_cases [OF plat] by auto
    from fit CredentialsCreate have fr: "fr = WebAuthn_register" by simp
    note eff = resume_credential_effect [OF disjI2 [OF refl]]
    from fr count rest_wp show ?thesis
      by (auto simp add: busy_invariant_def well_paired_def flows_in_flight_def out eff s2
          simp del: resume.simps split: if_splits)
  next
    case (CredentialsGet c ids)
    then obtain r where out: "out = Credential r"
      using platform_settle_cases [OF plat] by auto
    from fit CredentialsGet have fr: "fr = WebAuthn_authenticate" by simp
    note eff = resume_credential_effect [OF disjI1 [OF refl]]
    from fr count rest_wp show ?thesis
      by (auto simp add: busy_invariant_def well_paired_def flows_in_flight_def out eff s2
          simp del: resume.simps split: if_splits)
  next
    case (SetTimeout d)
    then have out: "out = Elapsed"
      using platform_settle_cases [OF plat] by auto
    from fit SetTimeout have fr: "fr = AutoStop" by simp
    from fr count rest_wp show ?thesis
      by (auto simp add: busy_invariant_def well_paired_def flows_in_flight_def out
          resume_timer_effect s2 simp del: resume.simps split: if_splits)
  qed
qed

lemma busy_invariant_step:
  assumes inv: "busy_invariant s"
  shows "busy_invariant (step e s)"
proof (cases e)
  case Click_toggle
  with inv show ?thesis
    by (auto simp add: busy_invariant_def well_paired_def flows_in_flight_def
        startCamera_effect handleStopCamera_effect split: if_splits)
next
  case Click_webauthn
  show ?thesis
  proof (cases "isAuthenticating s")
    case True
    with inv Click_webauthn show ?thesis by (simp add: handleWebAuthnAuthentication_def)
  next
    case False
    note eff = handleWebAuthnAuthentication_effect [OF False]
    from inv False Click_webauthn first_call_cases [of s] show ?thesis
      by (auto simp add: busy_invariant_def well_paired_def flows_in_flight_def eff
          split: if_splits)
  qed
next
  case (Settle i x)
  show ?thesis
  proof (cases "i < length (pending s)")
    case False
    with inv Settle show ?thesis by simp
  next
    case True
    obtain req fr where p: "pending s ! i = (req, fr)" by (cases "pending s ! i")
    show ?thesis
    proof (cases "platform_settle req x s")
      case None
      with inv Settle True p show ?thesis by simp
    next
      case (Some a)
      obtain out s1 where a: "a = (out, s1)" by (cases a)
      from busy_invariant_settle [OF inv True p Some [unfolded a]] Settle True p Some a
      show ?thesis by simp
    qed
  qed
qed

lemma busy_invariant_run: "busy_invariant s \<Longrightarrow> busy_invariant (run es s)"
  by (induction es arbitrary: s) (simp_all add: busy_invariant_step)

section \<open>The streams the gateway tracks\<close>

lemma tracked_only_gateway: "tracked_only s = (snd (gateway s) =
    (case fst (gateway s) of None \<Rightarrow> [] | Some stream \<Rightarrow> [stream]))"
  by (simp add: tracked_only_def gateway_def)

lemma gateway_stopCamera:
  "tracked_only s \<Longrightarrow> gateway (stopCamera s) = (None, [])"
  by (auto simp add: tracked_only_def gateway_def stopCamera_def split: option.splits)

lemma gateway_ui:
  "gateway (hideMessages s) = gateway s"
  "gateway (showStatusMessage msg s) = gateway s"
  "gateway (showError err s) = gateway s"
  "gateway (startCamera_catch err s) = gateway s"
  "gateway (handleWebAuthnAuthentication_finally s) = gateway s"
  "gateway (suspend req fr s) = gateway s"
  by (simp_all add: gateway_def ui_defs Let_def)

lemma gateway_startCamera: "gateway (startCamera s) = gateway s"
  by (simp add: startCamera_def requestCameraAccess_cases gateway_ui Let_def)
    (simp add: gateway_def)

lemma gateway_handleStopCamera:
  "gateway (handleStopCamera s) = gateway (stopCamera s)"
  by (simp add: handleStopCamera_def gateway_ui) (simp add: gateway_def)

lemma gateway_catch:
  "gateway (handleWebAuthnAuthentication_catch err s) = gateway s
 \<or> gateway (handleWebAuthnAuthentication_catch err s) = gateway (stopCamera s)"
  by (simp add: handleWebAuthnAuthentication_catch_def Let_def gateway_def showError_def
      stopCamera_def split: option.splits)

lemma gateway_camera: "gateway (handleWebAuthnAuthentication_camera s) = gateway s"
  by (simp add: handleWebAuthnAuthentication_camera_def requestCameraAccess_cases gateway_ui)

lemma gateway_handleWebAuthnAuthentication:
  "gateway (handleWebAuthnAuthentication s) = gateway s
 \<or> gateway (handleWebAuthnAuthentication s) = gateway (stopCamera s)"
proof (cases "isAuthenticating s")
  case True
  then show ?thesis by (simp add: handleWebAuthnAuthentication_def)
next
  case False
  let ?s1 = "hideMessages (s\<lparr>isAuthenticating := True, webauthnButton_disabled := True\<rparr>)"
  have s1: "gateway ?s1 = gateway s" "gateway (stopCamera ?s1) = gateway (stopCamera s)"
    by (simp_all add: gateway_def hideMessages_def stopCamera_def split: option.splits)
  show ?thesis
  proof (cases "checkWebAuthnSupport s")
    case unsupported: False
    then have "\<not> checkWebAuthnSupport ?s1"
      by (simp add: checkWebAuthnSupport_def hideMessages_def)
    with False gateway_catch [of _ ?s1] s1 show ?thesis
      by (auto simp add: handleWebAuthnAuthentication_def Let_def gateway_ui)
  next
    case True
    have "gateway (handleWebAuthnAuthentication s) = gateway s"
      using False True
      by (simp add: handleWebAuthnAuthentication_def Let_def authenticateUser_def
          registerCredential_def generateChallenge_def generateUserId_def getRandomValues_def
          checkWebAuthnSupport_def getStoredCredentialId_def hideMessages_def suspend_def
          gateway_def split: option.splits prod.splits)
    then show ?thesis by simp
  qed
qed

lemma platform_settle_gateway:
  assumes "platform_settle req x s = Some (out, s1)"
  shows "if req = GetUserMedia \<and> x = Resolve_stream
         then out = Stream (Inr (opened s)) \<and> gateway s1 = (currentStream s, live s @ [opened s])
         else gateway s1 = gateway s \<and> (\<forall>stream. out \<noteq> Stream (Inr stream))"
  using assms
  by (cases "(req, x, s)" rule: platform_settle.cases) (auto simp add: gateway_def)

lemma resume_gateway_acquired:
  assumes "fr = StartCamera_camera \<or> fr = WebAuthn_camera"
  shows "gateway (resume fr (Stream (Inr stream)) s) = (Some stream, live s)"
  using assms
  by (auto simp add: requestCameraAccess_resume_def startCamera_resume_def
      handleWebAuthnAuthentication_resume_camera_def gateway_ui)
    (simp_all add: gateway_def)

lemma gateway_storeCredentialId:
  "gateway (storeCredentialId credentialId s) = gateway s"
  "gateway (stopCamera (storeCredentialId credentialId s)) = gateway (stopCamera s)"
  by (simp_all add: gateway_def storeCredentialId_def stopCamera_def split: option.splits)

lemma gateway_status:
  "gateway (showStatusMessage msg (s\<lparr>isAuthenticated := a, webauthnButton_text := b,
      webauthnButton_authenticated := c\<rparr>)) = gateway s"
  "gateway (showStatusMessage msg (s\<lparr>webauthnButton_text := b\<rparr>)) = gateway s"
  by (simp_all add: gateway_def showStatusMessage_def)

lemma resume_gateway_other:
  assumes "\<forall>stream. out \<noteq> Stream (Inr stream)"
  shows "gateway (resume fr out s) = gateway s
       \<or> gateway (resume fr out s) = gateway (stopCamera s)"
proof (cases out)
  case (Credential r)
  consider err where "r = Inl err" | "r = Inr None" | cred where "r = Inr (Some cred)"
    by (cases r rule: resolved.cases) auto
  then show ?thesis
  proof cases
    case 1
    show ?thesis
      using gateway_catch [of "authenticateUser_catch err" s]
        gateway_catch [of "registerCredential_catch err" s]
      by (cases fr)
        (simp_all add: Credential 1 authenticateUser_resume_def registerCredential_resume_def
          handleWebAuthnAuthentication_resume_authenticate_def
          handleWebAuthnAuthentication_resume_register_def gateway_ui)
  next
    case 2
    show ?thesis
      using gateway_catch [of _ s]
      by (cases fr)
        (simp_all add: Credential 2 authenticateUser_resume_def registerCredential_resume_def
          handleWebAuthnAuthentication_resume_authenticate_def
          handleWebAuthnAuthentication_resume_register_def gateway_ui)
  next
    case 3
    show ?thesis
      by (cases fr)
        (simp_all add: Credential 3 authenticateUser_resume_def registerCredential_resume_def
          handleWebAuthnAuthentication_resume_authenticate_def
          handleWebAuthnAuthentication_resume_register_def gateway_camera gateway_status
          gateway_storeCredentialId)
  qed
next
  case (Stream r)
  with assms obtain err where r: "r = Inl err" by (cases r) auto
  show ?thesis
    by (cases fr)
      (simp_all add: Stream r requestCameraAccess_resume_def startCamera_resume_def
        handleWebAuthnAuthentication_resume_camera_def gateway_ui)
next
  case Elapsed
  show ?thesis
    by (cases fr) (simp_all add: Elapsed autoStop_def, simp add: gateway_def)
qed

lemma tracked_only_stopCamera:
  assumes "tracked_only s" and "gateway t = gateway s \<or> gateway t = gateway (stopCamera s)"
  shows "tracked_only t"
  using assms gateway_stopCamera [OF assms(1)]
  by (auto simp add: tracked_only_gateway)

lemma tracked_only_step:
  assumes wp: "well_paired s" and tr: "tracked_only s"
    and acq: "acquires e s \<Longrightarrow> currentStream s = None"
  shows "tracked_only (step e s)"
proof (cases e)
  case Click_toggle
  show ?thesis
    using tr gateway_startCamera [of s] gateway_handleStopCamera [of s]
    unfolding Click_toggle step.simps
    by (auto intro: tracked_only_stopCamera)
next
  case Click_webauthn
  show ?thesis
    using tr gateway_handleWebAuthnAuthentication [of s]
    unfolding Click_webauthn step.simps
    by (rule tracked_only_stopCamera)
next
  case (Settle i x)
  show ?thesis
  proof (cases "i < length (pending s)")
    case False
    with tr Settle show ?thesis by simp
  next
    case True
    obtain req fr where p: "pending s ! i = (req, fr)" by (cases "pending s ! i")
    show ?thesis
    proof (cases "platform_settle req x s")
      case None
      with tr Settle True p show ?thesis by simp
    next
      case (Some a)
      obtain out s1 where a: "a = (out, s1)" by (cases a)
      let ?s2 = "s1\<lparr>pending := take i (pending s1) @ drop (Suc i) (pending s1)\<rparr>"
      from Some a have plat: "platform_settle req x s = Some (out, s1)" by simp
      note pg = platform_settle_gateway [OF plat]
      have st: "step e s = resume fr out ?s2"
        using Settle True p plat by simp
      have g2: "gateway ?s2 = gateway s1" by (simp add: gateway_def)
      from wp True p have fit: "fits req fr"
        unfolding well_paired_def by (metis fst_conv list_all_length snd_conv)
      show ?thesis
      proof (cases "req = GetUserMedia \<and> x = Resolve_stream")
        case acquisition: True
        with Settle True p have "acquires e s" by simp
        then have "currentStream s = None" by (rule acq)
        with tr have none: "live s = []" by (simp add: tracked_only_def)
        from acquisition pg have out: "out = Stream (Inr (opened s))"
          and g1: "gateway s1 = (currentStream s, live s @ [opened s])" by simp_all
        from fit acquisition have fr: "fr = StartCamera_camera \<or> fr = WebAuthn_camera"
          by simp
        have "live ?s2 = [opened s]"
          using g1 g2 none by (simp add: gateway_def)
        then have "gateway (resume fr out ?s2) = (Some (opened s), [opened s])"
          unfolding out resume_gateway_acquired [OF fr] by simp
        then show ?thesis by (simp add: st tracked_only_gateway)
      next
        case other: False
        with pg have g1: "gateway s1 = gateway s"
          and out: "\<forall>stream. out \<noteq> Stream (Inr stream)" by simp_all
        have tr2: "tracked_only ?s2"
          using tr g1 g2 by (simp add: tracked_only_gateway)
        show ?thesis
          unfolding st using tr2 resume_gateway_other [OF out]
          by (rule tracked_only_stopCamera)
      qed
    qed
  qed
qed

lemma tracked_only_run:
  "well_paired s \<Longrightarrow> tracked_only s \<Longrightarrow> never_supersedes es s \<Longrightarrow>
   tracked_only (run es s)"
proof (induction es arbitrary: s)
  case Nil
  then show ?case by simp
next
  case (Cons e es)
  from Cons.prems have acq: "acquires e s \<Longrightarrow> currentStream s = None"
    and rest: "never_supersedes es (step e s)"
    by (simp_all split: if_splits)
  have "well_paired (step e s)" using Cons.prems(1) by (rule well_paired_step)
  moreover have "tracked_only (step e s)"
    using Cons.prems(1,2) acq by (rule tracked_only_step)
  ultimately show ?case using rest by (simp add: Cons.IH)
qed

section \<open>The biometric call comes first\<close>

text \<open>
  Claim C1. In the flow started by a click on the biometric button, once the re-entrancy
  guard is passed and \<^verbatim>\<open>isAuthenticating\<close> is set, the support check and the
  register-or-authenticate call happen in the click's own synchronous run: when the click
  handler returns to the event loop, the operations it has issued are exactly
  \<open>first_call\<close>, that is the one credential call (\<^verbatim>\<open>credentials.get\<close> when an identifier
  is stored, \<^verbatim>\<open>credentials.create\<close> otherwise) and nothing before or beside it, or nothing
  at all when the platform lacks support. So the credential call is the first suspension
  point of every execution. The camera request of this flow is issued only by the event
  that settles a pending credential call of the flow with a credential: it is reachable
  only after that call has completed.
\<close>

theorem biometric_call_first:
  "(\<not> isAuthenticating s \<longrightarrow>
      pending (step Click_webauthn s) = pending s @ first_call s
      \<and> issued (step Click_webauthn s) = issued s @ first_call s
      \<and> isAuthenticating (step Click_webauthn s) = checkWebAuthnSupport s)
 \<and> length (first_call s) = (if checkWebAuthnSupport s then 1 else 0)
 \<and> list_all (\<lambda>p. credential_request (fst p)) (first_call s)
 \<and> ((GetUserMedia, WebAuthn_camera) \<in> set (drop (length (issued s)) (issued (step e s))) \<longrightarrow>
      (\<exists>i cred req fr. e = Settle i (Resolve_credential (Some cred))
         \<and> i < length (pending s) \<and> pending s ! i = (req, fr)
         \<and> credential_request req
         \<and> (fr = WebAuthn_authenticate \<or> fr = WebAuthn_register)))"
proof -
  have a: "pending (step Click_webauthn s) = pending s @ first_call s
      \<and> issued (step Click_webauthn s) = issued s @ first_call s
      \<and> isAuthenticating (step Click_webauthn s) = checkWebAuthnSupport s"
    if "\<not> isAuthenticating s"
    using handleWebAuthnAuthentication_effect [OF that] by simp
  have b: "length (first_call s) = (if checkWebAuthnSupport s then 1 else 0)"
    by (simp add: first_call_def split: option.splits)
  have c: "list_all (\<lambda>p. credential_request (fst p)) (first_call s)"
    by (simp add: first_call_def split: option.splits)
  obtain new where "issued (step e s) = issued s @ new"
    and "(GetUserMedia, WebAuthn_camera) \<in> set new \<longrightarrow>
           (\<exists>i cred req fr. e = Settle i (Resolve_credential (Some cred))
              \<and> i < length (pending s) \<and> pending s ! i = (req, fr)
              \<and> credential_request req
              \<and> (fr = WebAuthn_authenticate \<or> fr = WebAuthn_register))"
    using step_new [of e s] by blast
  then have d: "(GetUserMedia, WebAuthn_camera)
        \<in> set (drop (length (issued s)) (issued (step e s))) \<longrightarrow>
      (\<exists>i cred req fr. e = Settle i (Resolve_credential (Some cred))
         \<and> i < length (pending s) \<and> pending s ! i = (req, fr)
         \<and> credential_request req
         \<and> (fr = WebAuthn_authenticate \<or> fr = WebAuthn_register))"
    by simp
  from a b c d show ?thesis by blast
qed

text \<open>
  On a platform with support and an empty store, the click issues \<^verbatim>\<open>credentials.create\<close>
  and nothing else; the camera request appears when that call settles with a credential.
\<close>

theorem biometric_call_first_witness:
  "\<not> isAuthenticating (page_load True True Map.empty)
 \<and> issued (step Click_webauthn (page_load True True Map.empty)) =
     [(CredentialsCreate (map of_nat [0..<32]) ''localhost'' (map of_nat [32..<48]),
       WebAuthn_register)]
 \<and> (GetUserMedia, WebAuthn_camera)
     \<in> set (drop (length (issued (run [Click_webauthn] (page_load True True Map.empty))))
         (issued (step (Settle 0 (Resolve_credential (Some \<lparr>rawId = [1, 2, 3]\<rparr>)))
            (run [Click_webauthn] (page_load True True Map.empty)))))
 \<and> credential_request (fst (pending (run [Click_webauthn] (page_load True True Map.empty)) ! 0))"
proof -
  let ?s0 = "page_load True True Map.empty"
  let ?s1 = "run [Click_webauthn] ?s0"
  let ?e = "Settle 0 (Resolve_credential (Some \<lparr>rawId = [1, 2, 3]\<rparr>))"
  have idle: "\<not> isAuthenticating ?s0" and none: "issued ?s0 = []"
    by (simp_all add: page_load_def)
  have call: "first_call ?s0 =
      [(CredentialsCreate (map of_nat [0..<32]) ''localhost'' (map of_nat [32..<48]),
        WebAuthn_register)]"
    by code_simp
  have cam: "(GetUserMedia, WebAuthn_camera)
      \<in> set (drop (length (issued ?s1)) (issued (step ?e ?s1)))"
    by code_simp
  have first: "issued (step Click_webauthn ?s0) = first_call ?s0"
    using biometric_call_first [where s = ?s0] idle none by simp
  have "\<exists>i cred req fr. ?e = Settle i (Resolve_credential (Some cred))
      \<and> i < length (pending ?s1) \<and> pending ?s1 ! i = (req, fr) \<and> credential_request req
      \<and> (fr = WebAuthn_authenticate \<or> fr = WebAuthn_register)"
    using biometric_call_first [where s = ?s1 and e = ?e] cam by blast
  then have "credential_request (fst (pending ?s1 ! 0))" by auto
  with idle first call cam show ?thesis by simp
qed

section \<open>The busy flag\<close>

text \<open>
  Claim C2 as stated fails: \<^verbatim>\<open>isAuthenticating\<close> is cleared in the \<^verbatim>\<open>finally\<close> block, which
  runs after the secondary camera request. After a click and a credential call that
  settled with a credential, the flag is still true while no credential call is in
  flight: the flow is waiting for the camera.
\<close>

theorem busy_during_camera_counterexample:
  "isAuthenticating (run [Click_webauthn, Settle 0 (Resolve_credential (Some \<lparr>rawId = [1, 2, 3]\<rparr>))]
      (page_load True True Map.empty))
 \<and> credential_calls_in_flight
      (run [Click_webauthn, Settle 0 (Resolve_credential (Some \<lparr>rawId = [1, 2, 3]\<rparr>))]
        (page_load True True Map.empty)) = 0
 \<and> pending (run [Click_webauthn, Settle 0 (Resolve_credential (Some \<lparr>rawId = [1, 2, 3]\<rparr>))]
      (page_load True True Map.empty)) = [(GetUserMedia, WebAuthn_camera)]"
  by code_simp

text \<open>
  Claim C2, amended. From a state with nothing pending and the flag false, in every
  reachable state: \<^verbatim>\<open>isAuthenticating\<close> is true exactly while one flow of the biometric
  handler is suspended (on its credential call or on its secondary camera request) and
  false otherwise, so it is cleared whenever the flow ends; at most one such flow is
  suspended; the credential calls in flight are at most as many as these flows, hence at
  most one, and one in flight makes the flag true; a click while the flag is true leaves
  the whole state as it is; and on a platform with support two clicks in a row issue
  exactly one credential call, the second click changing nothing.
\<close>

theorem busy_flag:
  assumes "pending s0 = []" and "\<not> isAuthenticating s0"
  shows "(isAuthenticating (run es s0) \<longleftrightarrow> flows_in_flight (run es s0) = 1)
    \<and> flows_in_flight (run es s0) \<le> 1
    \<and> credential_calls_in_flight (run es s0) \<le> flows_in_flight (run es s0)
    \<and> (isAuthenticating (run es s0) \<longrightarrow>
         step Click_webauthn (run es s0) = run es s0)
    \<and> (\<not> isAuthenticating (run es s0) \<and> checkWebAuthnSupport (run es s0) \<longrightarrow>
         step Click_webauthn (step Click_webauthn (run es s0)) =
           step Click_webauthn (run es s0)
         \<and> credential_calls_issued (step Click_webauthn (step Click_webauthn (run es s0))) =
           credential_calls_issued (run es s0) + 1)"
proof -
  let ?s = "run es s0"
  have "busy_invariant s0"
    using assms by (simp add: busy_invariant_def well_paired_def flows_in_flight_def)
  then have inv: "busy_invariant ?s" by (rule busy_invariant_run)
  then have wp: "well_paired ?s"
    and fl: "flows_in_flight ?s = (if isAuthenticating ?s then 1 else 0)"
    by (simp_all add: busy_invariant_def)
  have a: "isAuthenticating ?s \<longleftrightarrow> flows_in_flight ?s = 1" using fl by simp
  have b: "flows_in_flight ?s \<le> 1" using fl by simp
  have c: "credential_calls_in_flight ?s \<le> flows_in_flight ?s"
    using wp by (rule credential_calls_le_flows)
  have d: "step Click_webauthn ?s = ?s" if "isAuthenticating ?s"
    using that by (simp add: handleWebAuthnAuthentication_def)
  have e: "step Click_webauthn (step Click_webauthn ?s) = step Click_webauthn ?s
      \<and> credential_calls_issued (step Click_webauthn (step Click_webauthn ?s)) =
        credential_calls_issued ?s + 1"
    if idle: "\<not> isAuthenticating ?s" and sup: "checkWebAuthnSupport ?s"
  proof -
    note eff = handleWebAuthnAuthentication_effect [OF idle]
    have busy: "isAuthenticating (handleWebAuthnAuthentication ?s)"
      using eff(3) sup by simp
    then have again: "handleWebAuthnAuthentication (handleWebAuthnAuthentication ?s) =
        handleWebAuthnAuthentication ?s"
      by (simp add: handleWebAuthnAuthentication_def [of "handleWebAuthnAuthentication ?s"])
    have "credential_calls_issued (handleWebAuthnAuthentication ?s) =
        credential_calls_issued ?s + 1"
      using sup by (simp add: credential_calls_issued_def eff(2) first_call_credential)
    with again show ?thesis by simp
  qed
  from a b c d e show ?thesis by blast
qed

theorem busy_flag_witness:
  "pending (page_load True True Map.empty) = []
 \<and> \<not> isAuthenticating (page_load True True Map.empty)
 \<and> isAuthenticating (run [Click_webauthn] (page_load True True Map.empty))
 \<and> flows_in_flight (run [Click_webauthn] (page_load True True Map.empty)) = 1
 \<and> step Click_webauthn (run [Click_webauthn] (page_load True True Map.empty)) =
     run [Click_webauthn] (page_load True True Map.empty)
 \<and> credential_calls_issued
     (step Click_webauthn (step Click_webauthn (page_load True True Map.empty))) = 1"
proof -
  let ?s0 = "page_load True True Map.empty"
  have init: "pending ?s0 = []" "\<not> isAuthenticating ?s0"
    by (simp_all add: page_load_def)
  have busy: "isAuthenticating (run [Click_webauthn] ?s0)" by code_simp
  have sup: "checkWebAuthnSupport ?s0" by (simp add: checkWebAuthnSupport_page_load)
  have zero: "credential_calls_issued ?s0 = 0"
    by (simp add: credential_calls_issued_def page_load_def)
  have one: "flows_in_flight (run [Click_webauthn] ?s0) = 1
      \<and> step Click_webauthn (run [Click_webauthn] ?s0) = run [Click_webauthn] ?s0"
    using busy_flag [OF init, of "[Click_webauthn]"] busy by blast
  have start: "run [] ?s0 = ?s0" by simp
  have two: "credential_calls_issued (step Click_webauthn (step Click_webauthn ?s0)) =
      credential_calls_issued ?s0 + 1"
    using busy_flag [OF init, of "[]"] init sup unfolding start by blast
  from init busy one two zero show ?thesis by simp
qed

section \<open>Error classification\<close>

text \<open>
  Claim C3. Every platform error identity of the mapping tables is classified as
  documented, by the camera gateway (\<^verbatim>\<open>NotAllowedError\<close> and \<^verbatim>\<open>PermissionDeniedError\<close>
  as permission-denied, \<^verbatim>\<open>NotFoundError\<close> and \<^verbatim>\<open>DevicesNotFoundError\<close> as not-found,
  \<^verbatim>\<open>NotReadableError\<close> and \<^verbatim>\<open>TrackStartError\<close> as in-use) and by both operations of the
  biometric gateway (\<^verbatim>\<open>NotAllowedError\<close> as not-allowed, \<^verbatim>\<open>NotSupportedError\<close> as
  not-supported, \<^verbatim>\<open>InvalidStateError\<close> as invalid-state, \<^verbatim>\<open>TimeoutError\<close> and
  \<^verbatim>\<open>AbortError\<close> as timeout). Every other identity is classified as unknown, with a
  message that ends with the platform's message (or says \<^verbatim>\<open>Unknown error\<close> when the
  platform gave none) and with the platform's exception kept as \<^verbatim>\<open>originalError\<close>.
  This is the classification each operation applies when its platform call is rejected.
\<close>

theorem error_classification:
  "prop_type (requestCameraAccess_catch (DOMException ''NotAllowedError'' m)) = Some PermissionDenied
 \<and> prop_type (requestCameraAccess_catch (DOMException ''PermissionDeniedError'' m)) = Some PermissionDenied
 \<and> prop_type (requestCameraAccess_catch (DOMException ''NotFoundError'' m)) = Some NotFound
 \<and> prop_type (requestCameraAccess_catch (DOMException ''DevicesNotFoundError'' m)) = Some NotFound
 \<and> prop_type (requestCameraAccess_catch (DOMException ''NotReadableError'' m)) = Some InUse
 \<and> prop_type (requestCameraAccess_catch (DOMException ''TrackStartError'' m)) = Some InUse
 \<and> prop_type (registerCredential_catch (DOMException ''NotAllowedError'' m)) = Some NotAllowed
 \<and> prop_type (registerCredential_catch (DOMException ''NotSupportedError'' m)) = Some NotSupported
 \<and> prop_type (registerCredential_catch (DOMException ''InvalidStateError'' m)) = Some InvalidState
 \<and> prop_type (registerCredential_catch (DOMException ''TimeoutError'' m)) = Some Timeout
 \<and> prop_type (registerCredential_catch (DOMException ''AbortError'' m)) = Some Timeout
 \<and> prop_type (authenticateUser_catch (DOMException ''NotAllowedError'' m)) = Some NotAllowed
 \<and> prop_type (authenticateUser_catch (DOMException ''NotSupportedError'' m)) = Some NotSupported
 \<and> prop_type (authenticateUser_catch (DOMException ''InvalidStateError'' m)) = Some InvalidState
 \<and> prop_type (authenticateUser_catch (DOMException ''TimeoutError'' m)) = Some Timeout
 \<and> prop_type (authenticateUser_catch (DOMException ''AbortError'' m)) = Some Timeout
 \<and> (n \<notin> set [''NotAllowedError'', ''PermissionDeniedError'', ''NotFoundError'',
               ''DevicesNotFoundError'', ''NotReadableError'', ''TrackStartError''] \<longrightarrow>
      requestCameraAccess_catch (DOMException n m) =
        CapabilityError Unknown
          (''Unable to access camera: '' @ (if m = [] then ''Unknown error'' else m))
          (Some (DOMException n m))
      \<and> suffix m (prop_message (requestCameraAccess_catch (DOMException n m))))
 \<and> (n \<notin> set [''NotAllowedError'', ''NotSupportedError'', ''InvalidStateError'',
               ''TimeoutError'', ''AbortError''] \<longrightarrow>
      registerCredential_catch (DOMException n m) =
        CapabilityError Unknown
          (''Unable to register biometric authentication: '' @
             (if m = [] then ''Unknown error'' else m))
          (Some (DOMException n m))
      \<and> suffix m (prop_message (registerCredential_catch (DOMException n m)))
      \<and> authenticateUser_catch (DOMException n m) =
        CapabilityError Unknown
          (''Unable to authenticate: '' @ (if m = [] then ''Unknown error'' else m))
          (Some (DOMException n m))
      \<and> suffix m (prop_message (authenticateUser_catch (DOMException n m))))
 \<and> fst (requestCameraAccess_resume (Inl (DOMException n m)) s) =
      Inl (requestCameraAccess_catch (DOMException n m))
 \<and> fst (registerCredential_resume (Inl (DOMException n m)) s) =
      Inl (registerCredential_catch (DOMException n m))
 \<and> fst (authenticateUser_resume (Inl (DOMException n m)) s) =
      Inl (authenticateUser_catch (DOMException n m))"
  by (simp add: requestCameraAccess_catch_def registerCredential_catch_def
      authenticateUser_catch_def or_else_def requestCameraAccess_resume_def
      registerCredential_resume_def authenticateUser_resume_def suffix_def)

theorem error_classification_witness:
  "requestCameraAccess_catch (DOMException ''OverconstrainedError'' ''no such camera'') =
     CapabilityError Unknown ''Unable to access camera: no such camera''
       (Some (DOMException ''OverconstrainedError'' ''no such camera''))
 \<and> authenticateUser_catch (DOMException ''SecurityError'' ''bad origin'') =
     CapabilityError Unknown ''Unable to authenticate: bad origin''
       (Some (DOMException ''SecurityError'' ''bad origin''))"
  using error_classification [of "''no such camera''" "''OverconstrainedError''"]
    error_classification [of "''bad origin''" "''SecurityError''"]
  by simp

section \<open>The camera API is absent\<close>

text \<open>
  Claim C4 says that \<^verbatim>\<open>requestCameraAccess\<close> fails with kind not-supported when the camera
  API is absent. The code builds that error and throws it inside its own \<^verbatim>\<open>try\<close>; the
  \<^verbatim>\<open>catch\<close> block has no test for an error that is classified already (the two
  operations of \<^verbatim>\<open>webauthn.ts\<close> have one), finds no \<^verbatim>\<open>name\<close> on it and wraps it as
  unknown. What the caller receives has kind unknown; the not-supported error is its
  \<^verbatim>\<open>originalError\<close>.
\<close>

theorem requestCameraAccess_unsupported:
  "\<not> mediaDevices_present s \<or> \<not> getUserMedia_present s \<Longrightarrow>
   requestCameraAccess s =
     Inl (CapabilityError Unknown
       ''Unable to access camera: Camera access is not supported in this browser. Please use a modern browser like Chrome, Firefox, Safari, or Edge.''
       (Some (CapabilityError NotSupported
          ''Camera access is not supported in this browser. Please use a modern browser like Chrome, Firefox, Safari, or Edge.''
          None)))"
  by (simp add: requestCameraAccess_def requestCameraAccess_catch_def or_else_def)

theorem requestCameraAccess_unsupported_witness:
  "\<exists>m orig. requestCameraAccess (page_load True False Map.empty) =
     Inl (CapabilityError Unknown m orig)"
  using requestCameraAccess_unsupported [of "page_load True False Map.empty"]
  by (simp add: page_load_def)

section \<open>Authenticating without a stored credential\<close>

text \<open>
  Claim C5 as stated fails on a platform without support: the support check comes first,
  and \<^verbatim>\<open>authenticateUser\<close> fails with not-supported, whatever the store holds.
\<close>

theorem authenticateUser_unsupported_counterexample:
  "getStoredCredentialId (page_load False True Map.empty) = None
 \<and> fst (authenticateUser (page_load False True Map.empty)) =
     Inl (CapabilityError NotSupported
        ''WebAuthn is not supported in this browser. Please use a modern browser like Chrome, Firefox, Safari, or Edge.''
        None)"
  by (simp add: getStoredCredentialId_def authenticateUser_def checkWebAuthnSupport_def
      authenticateUser_catch_def page_load_def)

text \<open>
  Claim C5, amended. For every state whose store holds no credential identifier
  (\<^verbatim>\<open>getStoredCredentialId\<close> gives \<^verbatim>\<open>null\<close>), \<^verbatim>\<open>authenticateUser\<close> fails before any
  platform call is issued and changes nothing: with invalid-state when the support check
  passes, with not-supported when it does not.
\<close>

theorem authenticateUser_without_credential:
  "getStoredCredentialId s = None \<Longrightarrow>
   authenticateUser s =
     (Inl (if checkWebAuthnSupport s
           then CapabilityError InvalidState ''No credential found. Please register first.'' None
           else CapabilityError NotSupported
             ''WebAuthn is not supported in this browser. Please use a modern browser like Chrome, Firefox, Safari, or Edge.''
             None),
      s)"
  by (simp add: authenticateUser_no_credential authenticateUser_unsupported)

theorem authenticateUser_without_credential_witness:
  "getStoredCredentialId (page_load True True Map.empty) = None
 \<and> authenticateUser (page_load True True Map.empty) =
     (Inl (CapabilityError InvalidState ''No credential found. Please register first.'' None),
      page_load True True Map.empty)"
proof -
  have none: "getStoredCredentialId (page_load True True Map.empty) = None"
    by (simp add: getStoredCredentialId_def page_load_def)
  have "checkWebAuthnSupport (page_load True True Map.empty)"
    by (simp add: checkWebAuthnSupport_def page_load_def)
  with authenticateUser_without_credential [OF none] none show ?thesis by simp
qed

section \<open>Classified errors are thrown on unchanged\<close>

text \<open>
  Claim C6. In both biometric operations the \<^verbatim>\<open>catch\<close> block throws on, unchanged, an
  error that is classified already (same kind, same message, same \<^verbatim>\<open>originalError\<close>), also
  when the platform call is rejected with one. So the errors of the explicit checks reach
  the caller as they were built: not-supported without platform support, invalid-state
  when \<^verbatim>\<open>authenticateUser\<close> finds no stored identifier, unknown with the operation's own
  message when the platform resolves with \<^verbatim>\<open>null\<close>.
\<close>

theorem classified_errors_rethrown:
  "registerCredential_catch (CapabilityError t m orig) = CapabilityError t m orig
 \<and> authenticateUser_catch (CapabilityError t m orig) = CapabilityError t m orig
 \<and> registerCredential_resume (Inl (CapabilityError t m orig)) s =
      (Inl (CapabilityError t m orig), s)
 \<and> authenticateUser_resume (Inl (CapabilityError t m orig)) s =
      (Inl (CapabilityError t m orig), s)
 \<and> (\<not> checkWebAuthnSupport s \<longrightarrow>
      registerCredential s =
        (Inl (CapabilityError NotSupported
           ''WebAuthn is not supported in this browser. Please use a modern browser like Chrome, Firefox, Safari, or Edge.''
           None), s)
      \<and> authenticateUser s =
        (Inl (CapabilityError NotSupported
           ''WebAuthn is not supported in this browser. Please use a modern browser like Chrome, Firefox, Safari, or Edge.''
           None), s))
 \<and> (checkWebAuthnSupport s \<and> getStoredCredentialId s = None \<longrightarrow>
      authenticateUser s =
        (Inl (CapabilityError InvalidState ''No credential found. Please register first.''
           None), s))
 \<and> registerCredential_resume (Inr None) s =
      (Inl (CapabilityError Unknown ''Failed to create credential. Please try again.'' None), s)
 \<and> authenticateUser_resume (Inr None) s =
      (Inl (CapabilityError Unknown ''Failed to authenticate. Please try again.'' None), s)"
  by (simp add: catch_classified registerCredential_resume_def authenticateUser_resume_def
      registerCredential_unsupported authenticateUser_unsupported
      authenticateUser_no_credential)

theorem classified_errors_rethrown_witness:
  "registerCredential (page_load False True Map.empty) =
     (Inl (CapabilityError NotSupported
        ''WebAuthn is not supported in this browser. Please use a modern browser like Chrome, Firefox, Safari, or Edge.''
        None), page_load False True Map.empty)
 \<and> authenticateUser (page_load True True Map.empty) =
     (Inl (CapabilityError InvalidState ''No credential found. Please register first.'' None),
      page_load True True Map.empty)
 \<and> authenticateUser_catch (CapabilityError Timeout ''late'' None) =
      CapabilityError Timeout ''late'' None"
proof -
  have a: "\<not> checkWebAuthnSupport (page_load False True Map.empty)"
    by (simp add: checkWebAuthnSupport_def page_load_def)
  have b: "checkWebAuthnSupport (page_load True True Map.empty)
      \<and> getStoredCredentialId (page_load True True Map.empty) = None"
    by (simp add: checkWebAuthnSupport_def getStoredCredentialId_def page_load_def)
  show ?thesis
    using a b
      classified_errors_rethrown [of Timeout "''late''" None "page_load False True Map.empty"]
      classified_errors_rethrown [of Timeout "''late''" None "page_load True True Map.empty"]
    by blast
qed

section \<open>The stored credential identifier\<close>

text \<open>
  Claim C7. After every successful registration the stored credential identifier is not
  empty and is the identifier the platform returned: the store holds its base64 encoding,
  and reading the store decodes it back to the same bytes (encoding on store followed by
  decoding on read is a round trip on byte sequences). In any later state with that store
  and with platform support \<^verbatim>\<open>authenticateUser\<close> issues \<^verbatim>\<open>credentials.get\<close> with that
  identifier as its only allowed credential. The identifier of a credential that
  \<^verbatim>\<open>navigator.credentials.create\<close> resolves with is never empty (a WebAuthn credential
  identifier has at least 16 bytes): this is the one assumption on the platform.
\<close>

theorem registered_credential_is_used:
  "rawId cred \<noteq> [] \<Longrightarrow>
   fst (registerCredential_resume (Inr (Some cred)) s) =
     Inr \<lparr>success = True, credential = Some cred, isNewRegistration = Some True\<rparr>
 \<and> localStorage (snd (registerCredential_resume (Inr (Some cred)) s)) CREDENTIAL_STORAGE_KEY =
     Some (uint8ArrayToBase64 (rawId cred))
 \<and> uint8ArrayToBase64 (rawId cred) \<noteq> []
 \<and> base64ToUint8Array (uint8ArrayToBase64 (rawId cred)) = Some (rawId cred)
 \<and> getStoredCredentialId (snd (registerCredential_resume (Inr (Some cred)) s)) =
     Some (rawId cred)
 \<and> (\<forall>t. localStorage t = localStorage (snd (registerCredential_resume (Inr (Some cred)) s))
         \<and> checkWebAuthnSupport t \<longrightarrow>
       fst (authenticateUser t) =
         Inr (CredentialsGet (fst (generateChallenge t)) [rawId cred]))"
proof -
  assume ne: "rawId cred \<noteq> []"
  let ?s = "storeCredentialId (rawId cred) s"
  have g: "getStoredCredentialId ?s = Some (rawId cred)"
    using ne by (simp add: getStoredCredentialId_storeCredentialId)
  have "fst (authenticateUser t) = Inr (CredentialsGet (fst (generateChallenge t)) [rawId cred])"
    if "localStorage t = localStorage ?s" "checkWebAuthnSupport t" for t
  proof -
    from that(1) g have "getStoredCredentialId t = Some (rawId cred)"
      by (simp add: getStoredCredentialId_def)
    with that(2) show ?thesis by (simp add: authenticateUser_credential)
  qed
  moreover have "localStorage ?s CREDENTIAL_STORAGE_KEY = Some (uint8ArrayToBase64 (rawId cred))"
    by (simp add: storeCredentialId_def)
  moreover have "uint8ArrayToBase64 (rawId cred) \<noteq> []"
    using ne by (simp add: uint8ArrayToBase64_Nil_iff)
  ultimately show ?thesis
    using g by (simp add: registerCredential_resume_credential base64_roundtrip)
qed

text \<open>A registration that returns an identifier of 16 bytes, on a page just loaded.\<close>

theorem registered_credential_is_used_witness:
  "rawId \<lparr>rawId = [1, 2, 3, 4, 5, 6, 7, 8, 9, 10, 11, 12, 13, 14, 15, 16 :: byte]\<rparr> \<noteq> []
 \<and> getStoredCredentialId (snd (registerCredential_resume
      (Inr (Some \<lparr>rawId = [1, 2, 3, 4, 5, 6, 7, 8, 9, 10, 11, 12, 13, 14, 15, 16]\<rparr>))
      (page_load True True Map.empty))) =
     Some [1, 2, 3, 4, 5, 6, 7, 8, 9, 10, 11, 12, 13, 14, 15, 16]
 \<and> fst (authenticateUser (snd (registerCredential_resume
      (Inr (Some \<lparr>rawId = [1, 2, 3, 4, 5, 6, 7, 8, 9, 10, 11, 12, 13, 14, 15, 16]\<rparr>))
      (page_load True True Map.empty)))) =
     Inr (CredentialsGet (fst (generateChallenge (page_load True True Map.empty)))
       [[1, 2, 3, 4, 5, 6, 7, 8, 9, 10, 11, 12, 13, 14, 15, 16]])"
proof -
  let ?id = "[1, 2, 3, 4, 5, 6, 7, 8, 9, 10, 11, 12, 13, 14, 15, 16 :: byte]"
  let ?s = "storeCredentialId ?id (page_load True True Map.empty)"
  have ne: "rawId \<lparr>rawId = ?id\<rparr> \<noteq> []" by simp
  have c: "checkWebAuthnSupport ?s"
    by (simp add: checkWebAuthnSupport_storeCredentialId checkWebAuthnSupport_page_load)
  show ?thesis
    using registered_credential_is_used [OF ne, of "page_load True True Map.empty"] c
    by (simp add: registerCredential_resume_credential generateChallenge_storeCredentialId)
qed

section \<open>A failed camera request\<close>

text \<open>
  Claim C8. A camera request that fails leaves the tracked stream as it was:
  \<^verbatim>\<open>requestCameraAccess\<close> resumed with a failure returns the state unchanged, and
  \<^verbatim>\<open>currentStream\<close> differs after the resumption only when the platform delivered a stream,
  which then is the new value. The same holds where the request fails before any platform
  call, in both callers, and for the whole turn of the event loop in which the platform
  rejects a pending camera request: the tracked stream and the live streams stay the same.
\<close>

theorem failed_request_keeps_stream:
  "(requestCameraAccess_resume settled s = (Inl e, s') \<longrightarrow> s' = s)
 \<and> (currentStream (snd (requestCameraAccess_resume settled s)) \<noteq> currentStream s \<longrightarrow>
      (\<exists>stream. settled = Inr stream
         \<and> requestCameraAccess_resume settled s = (Inr stream, s\<lparr>currentStream := Some stream\<rparr>)))
 \<and> (requestCameraAccess s = Inl e \<longrightarrow>
      currentStream (startCamera s) = currentStream s
      \<and> currentStream (handleWebAuthnAuthentication_camera s) = currentStream s)
 \<and> (i < length (pending s) \<and> fst (pending s ! i) = GetUserMedia \<longrightarrow>
      currentStream (step (Settle i (Reject n m)) s) = currentStream s
      \<and> live (step (Settle i (Reject n m)) s) = live s)"
proof -
  have a: "requestCameraAccess_resume settled s = (Inl e, s') \<longrightarrow> s' = s"
    by (auto simp add: requestCameraAccess_resume_def split: sum.splits)
  have b: "currentStream (snd (requestCameraAccess_resume settled s)) \<noteq> currentStream s \<longrightarrow>
      (\<exists>stream. settled = Inr stream
         \<and> requestCameraAccess_resume settled s = (Inr stream, s\<lparr>currentStream := Some stream\<rparr>))"
    by (auto simp add: requestCameraAccess_resume_def split: sum.splits)
  have c: "requestCameraAccess s = Inl e \<longrightarrow>
      currentStream (startCamera s) = currentStream s
      \<and> currentStream (handleWebAuthnAuthentication_camera s) = currentStream s"
    using gateway_startCamera [of s] gateway_camera [of s] by (simp add: gateway_def)
  have d: "currentStream (step (Settle i (Reject n m)) s) = currentStream s
      \<and> live (step (Settle i (Reject n m)) s) = live s"
    if lt: "i < length (pending s)" and gum: "fst (pending s ! i) = GetUserMedia"
  proof -
    obtain fr where p: "pending s ! i = (GetUserMedia, fr)"
      using gum by (cases "pending s ! i") simp
    show ?thesis
      using lt p
      by (cases fr)
        (simp_all add: requestCameraAccess_resume_def startCamera_resume_def
          startCamera_catch_def showError_def handleWebAuthnAuthentication_resume_camera_def
          handleWebAuthnAuthentication_finally_def Let_def)
  qed
  from a b c d show ?thesis by blast
qed

text \<open>
  A stream is tracked from the camera toggle; the camera request of a later biometric flow
  is rejected: the stream of the toggle is still the tracked one.
\<close>

theorem failed_request_keeps_stream_witness:
  "currentStream (run [Click_toggle, Settle 0 Resolve_stream, Click_webauthn,
       Settle 0 (Resolve_credential (Some \<lparr>rawId = [1, 2, 3]\<rparr>))]
     (page_load True True Map.empty)) = Some 0
 \<and> fst (pending (run [Click_toggle, Settle 0 Resolve_stream, Click_webauthn,
       Settle 0 (Resolve_credential (Some \<lparr>rawId = [1, 2, 3]\<rparr>))]
     (page_load True True Map.empty)) ! 0) = GetUserMedia
 \<and> currentStream (step (Settle 0 (Reject ''NotReadableError'' ''busy''))
     (run [Click_toggle, Settle 0 Resolve_stream, Click_webauthn,
       Settle 0 (Resolve_credential (Some \<lparr>rawId = [1, 2, 3]\<rparr>))]
     (page_load True True Map.empty))) = Some 0
 \<and> snd (requestCameraAccess_resume (Inl (DOMException ''NotFoundError'' ''none''))
     (page_load True True Map.empty)) = page_load True True Map.empty"
proof -
  let ?s = "run [Click_toggle, Settle 0 Resolve_stream, Click_webauthn,
       Settle 0 (Resolve_credential (Some \<lparr>rawId = [1, 2, 3]\<rparr>))]
     (page_load True True Map.empty)"
  let ?t = "page_load True True Map.empty"
  have cur: "currentStream ?s = Some 0" by code_simp
  have lt: "0 < length (pending ?s)" by code_simp
  have gum: "fst (pending ?s ! 0) = GetUserMedia" by code_simp
  have res: "requestCameraAccess_resume (Inl (DOMException ''NotFoundError'' ''none'')) ?t =
      (Inl (requestCameraAccess_catch (DOMException ''NotFoundError'' ''none'')),
       snd (requestCameraAccess_resume (Inl (DOMException ''NotFoundError'' ''none'')) ?t))"
    by (simp add: requestCameraAccess_resume_def)
  have kept: "currentStream (step (Settle 0 (Reject ''NotReadableError'' ''busy'')) ?s) =
      currentStream ?s"
    using failed_request_keeps_stream [where s = ?s and i = 0
        and n = "''NotReadableError''" and m = "''busy''"] lt gum
    by blast
  have same: "snd (requestCameraAccess_resume (Inl (DOMException ''NotFoundError'' ''none'')) ?t)
      = ?t"
    using failed_request_keeps_stream [where s = ?t
        and settled = "Inl (DOMException ''NotFoundError'' ''none'')"
        and e = "requestCameraAccess_catch (DOMException ''NotFoundError'' ''none'')"
        and s' = "snd (requestCameraAccess_resume
          (Inl (DOMException ''NotFoundError'' ''none'')) ?t)"] res
    by blast
  from cur gum kept same show ?thesis by simp
qed

section \<open>How many streams are live\<close>

text \<open>
  Claim C9 says that at most one acquired stream is live in every reachable state, also
  after a request that succeeds while an earlier stream is live. The code does not keep
  this: \<^verbatim>\<open>requestCameraAccess\<close> overwrites \<^verbatim>\<open>currentStream\<close>, its only handle, without
  stopping the stream it held, and \<^verbatim>\<open>stopCamera\<close> stops the tracked stream only. With the
  camera on from the toggle, a biometric flow that succeeds acquires a second stream: two
  streams are live, and the first is tracked by nothing. The program's own ways to stop
  the camera then leave it on: the timer stops the second stream, a click on the toggle
  finds no tracked stream, and the first stream stays live.
\<close>

theorem superseded_stream_stays_live:
  "live (run [Click_toggle, Settle 0 Resolve_stream, Click_webauthn,
        Settle 0 (Resolve_credential (Some \<lparr>rawId = [1, 2, 3]\<rparr>)), Settle 0 Resolve_stream]
      (page_load True True Map.empty)) = [0, 1]
 \<and> currentStream (run [Click_toggle, Settle 0 Resolve_stream, Click_webauthn,
        Settle 0 (Resolve_credential (Some \<lparr>rawId = [1, 2, 3]\<rparr>)), Settle 0 Resolve_stream]
      (page_load True True Map.empty)) = Some 1
 \<and> live (run [Click_toggle, Settle 0 Resolve_stream, Click_webauthn,
        Settle 0 (Resolve_credential (Some \<lparr>rawId = [1, 2, 3]\<rparr>)), Settle 0 Resolve_stream,
        Settle 0 Fire, Click_toggle]
      (page_load True True Map.empty)) = [0]
 \<and> currentStream (run [Click_toggle, Settle 0 Resolve_stream, Click_webauthn,
        Settle 0 (Resolve_credential (Some \<lparr>rawId = [1, 2, 3]\<rparr>)), Settle 0 Resolve_stream,
        Settle 0 Fire, Click_toggle]
      (page_load True True Map.empty)) = None"
  by code_simp

text \<open>
  The defect is confined to that case. From a state with nothing pending, no tracked
  stream and no live stream, as long as no camera request succeeds while a stream is
  still tracked, every live stream is the tracked one.
\<close>

lemma one_live_stream_unless_superseded:
  assumes "pending s0 = []" and "currentStream s0 = None" and "live s0 = []"
    and "never_supersedes es s0"
  shows "live (run es s0) =
      (case currentStream (run es s0) of None \<Rightarrow> [] | Some stream \<Rightarrow> [stream])
    \<and> length (live (run es s0)) \<le> 1
    \<and> requestCameraAccess_resume (Inr stream) s = (Inr stream, s\<lparr>currentStream := Some stream\<rparr>)"
proof -
  have "well_paired s0" using assms(1) by (simp add: well_paired_def)
  moreover have "tracked_only s0" using assms(2,3) by (simp add: tracked_only_def)
  ultimately have "tracked_only (run es s0)"
    using assms(4) by (rule tracked_only_run)
  then show ?thesis
    by (simp add: tracked_only_def requestCameraAccess_resume_def split: option.splits)
qed

lemma one_live_stream_unless_superseded_example:
  "never_supersedes [Click_toggle, Settle 0 Resolve_stream, Click_toggle, Click_webauthn,
        Settle 0 (Resolve_credential (Some \<lparr>rawId = [1, 2, 3]\<rparr>)), Settle 0 Resolve_stream]
      (page_load True True Map.empty)
 \<and> live (run [Click_toggle, Settle 0 Resolve_stream, Click_toggle, Click_webauthn,
        Settle 0 (Resolve_credential (Some \<lparr>rawId = [1, 2, 3]\<rparr>)), Settle 0 Resolve_stream]
      (page_load True True Map.empty)) = [1]"
proof -
  let ?es = "[Click_toggle, Settle 0 Resolve_stream, Click_toggle, Click_webauthn,
        Settle 0 (Resolve_credential (Some \<lparr>rawId = [1, 2, 3]\<rparr>)), Settle 0 Resolve_stream]"
  let ?s0 = "page_load True True Map.empty"
  have init: "pending ?s0 = []" "currentStream ?s0 = None" "live ?s0 = []"
    by (simp_all add: page_load_def)
  have ns: "never_supersedes ?es ?s0" by code_simp
  have cur: "currentStream (run ?es ?s0) = Some 1" by code_simp
  from one_live_stream_unless_superseded [OF init ns] cur ns show ?thesis by simp
qed

section \<open>Results are successes\<close>

text \<open>
  Claim C10. When \<^verbatim>\<open>registerCredential\<close> or \<^verbatim>\<open>authenticateUser\<close> returns a result, its
  \<^verbatim>\<open>success\<close> is true and \<^verbatim>\<open>isNewRegistration\<close> is true for the registration and false for
  the authentication (before its \<^verbatim>\<open>await\<close> neither returns a result at all: it fails or
  suspends). No result with \<^verbatim>\<open>success\<close> false is produced, so in the orchestrator the
  test of \<^verbatim>\<open>result.success\<close> never takes its false branch: each continuation equals the
  one without the test.
\<close>

theorem results_are_successes:
  "(registerCredential_resume settled s = (Inr result, s') \<longrightarrow>
      success result \<and> isNewRegistration result = Some True)
 \<and> (authenticateUser_resume settled s = (Inr result, s') \<longrightarrow>
      success result \<and> isNewRegistration result = Some False)
 \<and> resume WebAuthn_register (Credential settled) s =
      (case registerCredential_resume settled s of
         (Inl err, s1) \<Rightarrow>
           handleWebAuthnAuthentication_finally (handleWebAuthnAuthentication_catch err s1)
       | (Inr r, s1) \<Rightarrow>
           handleWebAuthnAuthentication_camera
             (showStatusMessage Credential_registered_info
                (s1\<lparr>webauthnButton_text := Authenticate_with_FaceID\<rparr>)))
 \<and> resume WebAuthn_authenticate (Credential settled) s =
      (case authenticateUser_resume settled s of
         (Inl err, s1) \<Rightarrow>
           handleWebAuthnAuthentication_finally (handleWebAuthnAuthentication_catch err s1)
       | (Inr r, s1) \<Rightarrow>
           handleWebAuthnAuthentication_camera
             (showStatusMessage Authentication_successful
                (s1\<lparr>isAuthenticated := True, webauthnButton_text := Authenticated,
                    webauthnButton_authenticated := True\<rparr>)))"
  by (auto simp add: registerCredential_resume_def authenticateUser_resume_def
      handleWebAuthnAuthentication_resume_register_def
      handleWebAuthnAuthentication_resume_authenticate_def
      split: sum.splits option.splits)

theorem results_are_successes_witness:
  "authenticateUser_resume (Inr (Some \<lparr>rawId = [9]\<rparr>)) (page_load True True Map.empty) =
     (Inr \<lparr>success = True, credential = Some \<lparr>rawId = [9]\<rparr>, isNewRegistration = Some False\<rparr>,
      page_load True True Map.empty)
 \<and> success \<lparr>success = True, credential = Some \<lparr>rawId = [9]\<rparr>,
      isNewRegistration = Some False\<rparr>"
proof -
  have "authenticateUser_resume (Inr (Some \<lparr>rawId = [9]\<rparr>)) (page_load True True Map.empty) =
     (Inr \<lparr>success = True, credential = Some \<lparr>rawId = [9]\<rparr>, isNewRegistration = Some False\<rparr>,
      page_load True True Map.empty)"
    by (simp add: authenticateUser_resume_def)
  with results_are_successes [where settled = "Inr (Some \<lparr>rawId = [9]\<rparr>)"
      and s = "page_load True True Map.empty"
      and result = "\<lparr>success = True, credential = Some \<lparr>rawId = [9]\<rparr>,
        isNewRegistration = Some False\<rparr>"
      and s' = "page_load True True Map.empty"]
  show ?thesis by blast
qed

end
